theory Spec2Isabelle
  imports Main "HOL-Library.Log_Nat"
begin

section \<open>The DocuSeal API client: request lifecycle\<close>

text \<open>
  A shallow embedding of \<^verbatim>\<open>internal/api/client.go\<close>, of the error kinds and the circuit
  breaker of package \<^verbatim>\<open>api\<close>, and of \<^verbatim>\<open>internal/cmd/errors.go\<close>.
  Go strings are byte sequences: \<open>string\<close> here is the list of the bytes, and \<open>length\<close>
  is Go's \<open>len\<close>.
\<close>

subsection \<open>Integers and durations\<close>

text \<open>
  \<open>time.Duration\<close> is an \<open>int64\<close> count of nanoseconds. Durations are kept as \<open>int\<close>,
  and every arithmetic result is brought back into the 64-bit two's complement range by
  \<open>int64\<close>, as Go's wrapping arithmetic does.
\<close>

definition int64 :: "int \<Rightarrow> int" where
  "int64 x = (x + 2 ^ 63) mod 2 ^ 64 - 2 ^ 63"

definition MaxInt64 :: int where
  "MaxInt64 = 2 ^ 63 - 1"

definition MinInt64 :: int where
  "MinInt64 = - (2 ^ 63)"

definition Second :: int where
  "Second = 1000000000"

text \<open>Go's \<open>/\<close> on integers truncates towards zero.\<close>

definition quot :: "int \<Rightarrow> int \<Rightarrow> int" where
  "quot a b = sgn a * sgn b * (\<bar>a\<bar> div \<bar>b\<bar>)"

text \<open>\<open>1 << n\<close> at type \<open>int64\<close>, for a shift count \<open>n \<ge> 0\<close>: bits shifted out are lost.\<close>

definition shl1 :: "int \<Rightarrow> int" where
  "shl1 n = int64 (2 ^ nat n)"

subsection \<open>Strings\<close>

definition HasSuffix :: "string \<Rightarrow> string \<Rightarrow> bool" where
  "HasSuffix s suffix =
     (length suffix \<le> length s \<and> drop (length s - length suffix) s = suffix)"

definition TrimSuffix :: "string \<Rightarrow> string \<Rightarrow> string" where
  "TrimSuffix s suffix =
     (if HasSuffix s suffix then take (length s - length suffix) s else s)"

subsection \<open>The circuit breaker\<close>

text \<open>
  A \<open>time.Time\<close> is a count of nanoseconds since Go's zero time (the value of a
  \<open>lastFailure\<close> that was never set). \<open>time.Since\<close> saturates at the ends of the
  \<open>Duration\<close> range. The mutex of the breaker makes each of its operations atomic; an
  operation is a function from the breaker before to the breaker after. The counter is a
  Go \<open>int\<close>, kept here without a bound: it would take \<open>2 ^ 63\<close> recorded failures to wrap.
\<close>

record circuitBreaker =
  failures :: int
  maxFailures :: int
  lastFailure :: int
  resetTimeout :: int

definition newCircuitBreaker :: circuitBreaker where
  "newCircuitBreaker =
     \<lparr>failures = 0, maxFailures = 5, lastFailure = 0, resetTimeout = 30 * Second\<rparr>"

definition Since :: "int \<Rightarrow> int \<Rightarrow> int" where
  "Since now t = max MinInt64 (min MaxInt64 (now - t))"

definition reset :: "circuitBreaker \<Rightarrow> circuitBreaker" where
  "reset cb = cb\<lparr>failures := 0\<rparr>"

text \<open>\<open>isOpen\<close> at clock reading \<open>now\<close>: the answer and the breaker afterwards.\<close>

definition isOpen :: "circuitBreaker \<Rightarrow> int \<Rightarrow> bool \<times> circuitBreaker" where
  "isOpen cb now =
     (if maxFailures cb \<le> failures cb then
        (if resetTimeout cb < Since now (lastFailure cb) then (False, reset cb)
         else (True, cb))
      else (False, cb))"

definition recordSuccess :: "circuitBreaker \<Rightarrow> circuitBreaker" where
  "recordSuccess cb = reset cb"

definition recordFailure :: "circuitBreaker \<Rightarrow> int \<Rightarrow> circuitBreaker" where
  "recordFailure cb now = cb\<lparr>failures := failures cb + 1, lastFailure := now\<rparr>"

subsection \<open>The client and its construction\<close>

record Client =
  BaseURL :: string
  APIKey :: string
  Timeout :: int
  InsecureSkipVerify :: bool
  cb :: circuitBreaker
  maxRetries :: int
  baseDelay :: int

definition const_defaultTimeout :: int where
  "const_defaultTimeout = 30 * Second"

definition const_maxRetries :: int where
  "const_maxRetries = 3"

definition const_baseDelay :: int where
  "const_baseDelay = 1 * Second"

definition const_maxErrorBodyLength :: nat where
  "const_maxErrorBodyLength = 500"

datatype ClientOption =
    WithInsecureSkipVerify
  | WithTimeout int
  | WithRetries int
  | WithRetryBaseDelay int

fun apply_option :: "ClientOption \<Rightarrow> Client \<Rightarrow> Client" where
  "apply_option WithInsecureSkipVerify c = c\<lparr>InsecureSkipVerify := True\<rparr>"
| "apply_option (WithTimeout d) c = (if 0 < d then c\<lparr>Timeout := d\<rparr> else c)"
| "apply_option (WithRetries n) c = (if 0 \<le> n then c\<lparr>maxRetries := n\<rparr> else c)"
| "apply_option (WithRetryBaseDelay d) c = (if 0 < d then c\<lparr>baseDelay := d\<rparr> else c)"

definition NewWithOptions :: "string \<Rightarrow> string \<Rightarrow> ClientOption list \<Rightarrow> Client" where
  "NewWithOptions baseURL apiKey opts =
     (let b1 = TrimSuffix baseURL ''/'';
          b2 = (if \<not> HasSuffix b1 ''/api'' then b1 @ ''/api'' else b1)
      in foldl (\<lambda>c opt. apply_option opt c)
           \<lparr>BaseURL = b2, APIKey = apiKey, Timeout = const_defaultTimeout,
            InsecureSkipVerify = False, cb = newCircuitBreaker,
            maxRetries = const_maxRetries, baseDelay = const_baseDelay\<rparr>
           opts)"

definition New :: "string \<Rightarrow> string \<Rightarrow> Client" where
  "New baseURL apiKey = NewWithOptions baseURL apiKey []"

subsection \<open>Errors\<close>

text \<open>
  Go errors as values. \<open>Wrapped p e\<close> is \<open>fmt.Errorf(p + "%w", e)\<close>: its message is
  \<open>p\<close> followed by the message of \<open>e\<close>, and \<open>Unwrap\<close> gives \<open>e\<close>. \<open>ContextError\<close> holds
  the two sentinel values of package \<open>context\<close>, \<open>ErrNotConfigured\<close> the sentinel of
  package \<open>config\<close>. \<open>NetError t m\<close> is any other error that implements \<open>net.Error\<close> and
  wraps nothing, with \<open>Timeout() = t\<close> and message \<open>m\<close>. \<open>NetWrapped t p e\<close> is an error
  that implements \<open>net.Error\<close> and has \<open>Unwrap\<close>, which gives \<open>e\<close>, as \<open>*url.Error\<close> (what
  \<open>http.Client.Do\<close> returns) and \<open>*net.OpError\<close> do: its message is \<open>p\<close> followed by the
  message of \<open>e\<close>, and \<open>Timeout() = t\<close>. \<open>OtherError m\<close> is an error of no kind known to
  this code, with message \<open>m\<close>.
\<close>

datatype ctx_error = Canceled | DeadlineExceeded

datatype error =
    APIError int string
  | RateLimitError int
  | AuthError string
  | CircuitBreakerError
  | ValidationError string string
  | ErrNotConfigured
  | ContextError ctx_error
  | NetError bool string
  | NetWrapped bool string error
  | OtherError string
  | Wrapped string error

text \<open>\<open>errors.As\<close>: the first error of the chain that has the wanted type.\<close>

fun errors_As :: "(error \<Rightarrow> bool) \<Rightarrow> error \<Rightarrow> error option" where
  "errors_As is_type (Wrapped p e) =
     (if is_type (Wrapped p e) then Some (Wrapped p e) else errors_As is_type e)"
| "errors_As is_type (NetWrapped t p e) =
     (if is_type (NetWrapped t p e) then Some (NetWrapped t p e) else errors_As is_type e)"
| "errors_As is_type e = (if is_type e then Some e else None)"

text \<open>\<open>errors.Is\<close>: some error of the chain is the target.\<close>

fun errors_Is :: "error \<Rightarrow> error \<Rightarrow> bool" where
  "errors_Is (Wrapped p e) target = (Wrapped p e = target \<or> errors_Is e target)"
| "errors_Is (NetWrapped t p e) target = (NetWrapped t p e = target \<or> errors_Is e target)"
| "errors_Is e target = (e = target)"

fun is_APIError :: "error \<Rightarrow> bool" where
  "is_APIError (APIError status body) = True"
| "is_APIError e = False"

fun is_RateLimitError :: "error \<Rightarrow> bool" where
  "is_RateLimitError (RateLimitError n) = True"
| "is_RateLimitError e = False"

fun is_AuthError :: "error \<Rightarrow> bool" where
  "is_AuthError (AuthError r) = True"
| "is_AuthError e = False"

fun is_CircuitBreakerError :: "error \<Rightarrow> bool" where
  "is_CircuitBreakerError CircuitBreakerError = True"
| "is_CircuitBreakerError e = False"

fun is_ValidationError :: "error \<Rightarrow> bool" where
  "is_ValidationError (ValidationError f m) = True"
| "is_ValidationError e = False"

definition IsRateLimitError :: "error \<Rightarrow> bool" where
  "IsRateLimitError err = (errors_As is_RateLimitError err \<noteq> None)"

definition IsAuthError :: "error \<Rightarrow> bool" where
  "IsAuthError err = (errors_As is_AuthError err \<noteq> None)"

definition IsCircuitBreakerError :: "error \<Rightarrow> bool" where
  "IsCircuitBreakerError err = (errors_As is_CircuitBreakerError err \<noteq> None)"

definition IsValidationError :: "error \<Rightarrow> bool" where
  "IsValidationError err = (errors_As is_ValidationError err \<noteq> None)"

subsection \<open>The sanitizer of error bodies\<close>

text \<open>
  The seven regular expressions of \<open>initSanitizePatterns\<close> are sequences of items: one
  rune, or a class of runes repeated (\<open>*\<close>, \<open>+\<close>). An atom takes one rune of its class
  off the front of the input and gives its bytes and the rest. In each pattern no
  repeated class shares a rune with what follows it, so the greedy match below is the
  leftmost-first match of Go's \<open>regexp\<close>. Under \<open>(?i)\<close> a letter matches the runes of
  its simple case folding: its two cases, and for \<open>k\<close> and \<open>s\<close> also the Kelvin sign
  U+212A and the long s U+017F (here in UTF-8). \<open>\s\<close> is the five ASCII spaces. The
  byte \<open>0x22\<close> occurs in UTF-8 only as the rune \<open>"\<close>, so \<open>[^"]*\<close> takes the bytes up
  to the next \<open>0x22\<close>.
\<close>

type_synonym atom = "string \<Rightarrow> (string \<times> string) option"

definition lower_of :: "char \<Rightarrow> char" where
  "lower_of c =
     (case map_of (zip ''ABCDEFGHIJKLMNOPQRSTUVWXYZ'' ''abcdefghijklmnopqrstuvwxyz'') c of
        Some l \<Rightarrow> l | None \<Rightarrow> c)"

definition upper_of :: "char \<Rightarrow> char" where
  "upper_of c =
     (case map_of (zip ''abcdefghijklmnopqrstuvwxyz'' ''ABCDEFGHIJKLMNOPQRSTUVWXYZ'') c of
        Some u \<Rightarrow> u | None \<Rightarrow> c)"

definition kelvin_sign :: string where
  "kelvin_sign = [CHR 0xE2, CHR 0x84, CHR 0xAA]"

definition long_s :: string where
  "long_s = [CHR 0xC5, CHR 0xBF]"

definition folds :: "char \<Rightarrow> string list" where
  "folds c =
     [[lower_of c], [upper_of (lower_of c)]]
       @ (if lower_of c = CHR ''k'' then [kelvin_sign] else [])
       @ (if lower_of c = CHR ''s'' then [long_s] else [])"

fun strip_any :: "string list \<Rightarrow> atom" where
  "strip_any [] s = None"
| "strip_any (a # as) s =
     (if a \<noteq> [] \<and> take (length a) s = a then Some (a, drop (length a) s)
      else strip_any as s)"

definition lit :: "char \<Rightarrow> atom" where
  "lit c = strip_any (folds c)"

definition byte_in :: "(char \<Rightarrow> bool) \<Rightarrow> atom" where
  "byte_in P s = (case s of [] \<Rightarrow> None | x # xs \<Rightarrow> if P x then Some ([x], xs) else None)"

definition space :: atom where
  "space = byte_in (\<lambda>x. x \<in> set [CHR 0x09, CHR 0x0A, CHR 0x0C, CHR 0x0D, CHR 0x20])"

definition not_quote :: atom where
  "not_quote = byte_in (\<lambda>x. x \<noteq> CHR 0x22)"

definition token_char :: atom where
  "token_char s =
     (case byte_in (\<lambda>x. x \<in> set
         ''ABCDEFGHIJKLMNOPQRSTUVWXYZabcdefghijklmnopqrstuvwxyz0123456789-._~+/'') s of
        Some r \<Rightarrow> Some r
      | None \<Rightarrow> strip_any [kelvin_sign, long_s] s)"

definition equals_sign :: atom where
  "equals_sign = byte_in (\<lambda>x. x = CHR ''='')"

datatype item = One atom | Star atom | Plus atom

text \<open>
  \<open>many a fuel s\<close> applies the atom \<open>a\<close> to \<open>s\<close> as often as it matches, and gives the
  bytes taken and the rest. Every atom takes at least one byte, so the input itself is
  fuel enough: \<open>match_items\<close> passes it.
\<close>

fun many :: "atom \<Rightarrow> string \<Rightarrow> string \<Rightarrow> string \<times> string" where
  "many a [] s = ([], s)"
| "many a (f # fuel) s =
     (case a s of
        None \<Rightarrow> ([], s)
      | Some (m, r) \<Rightarrow> (case many a fuel r of (ms, r') \<Rightarrow> (m @ ms, r')))"

fun match_items :: "item list \<Rightarrow> string \<Rightarrow> (string \<times> string) option" where
  "match_items [] s = Some ([], s)"
| "match_items (One a # p) s =
     (case a s of
        None \<Rightarrow> None
      | Some (m, r) \<Rightarrow>
          (case match_items p r of None \<Rightarrow> None | Some (ms, r') \<Rightarrow> Some (m @ ms, r')))"
| "match_items (Star a # p) s =
     (case many a s s of
        (m, r) \<Rightarrow>
          (case match_items p r of None \<Rightarrow> None | Some (ms, r') \<Rightarrow> Some (m @ ms, r')))"
| "match_items (Plus a # p) s =
     (case a s of
        None \<Rightarrow> None
      | Some (m, r) \<Rightarrow>
          (case many a r r of
             (m2, r2) \<Rightarrow>
               (case match_items p r2 of
                  None \<Rightarrow> None
                | Some (ms, r') \<Rightarrow> Some (m @ m2 @ ms, r'))))"

definition literal :: "string \<Rightarrow> item list" where
  "literal s = map (\<lambda>c. One (lit c)) s"

definition key_pattern :: "string \<Rightarrow> item list" where
  "key_pattern key =
     literal ([CHR 0x22] @ key @ [CHR 0x22])
       @ [Star space, One (lit (CHR '':'')), Star space, One (lit (CHR 0x22)),
          Star not_quote, One (lit (CHR 0x22))]"

definition bearer_pattern :: "item list" where
  "bearer_pattern =
     literal ([CHR 0x22] @ ''bearer'')
       @ [Plus space, Plus token_char, Star equals_sign, One (lit (CHR 0x22))]"

definition sanitizePatterns :: "item list list" where
  "sanitizePatterns =
     [key_pattern ''api_key'', key_pattern ''token'', key_pattern ''password'',
      key_pattern ''secret'', key_pattern ''authorization'', key_pattern ''auth'',
      bearer_pattern]"

text \<open>
  \<open>ReplaceAllStringFunc\<close>: the matches are found from left to right, each search
  starting where the last match ended. A pattern of this file starts with the quote
  rune, so a match is never empty; the test on the lengths only makes this visible to
  the termination proof.
\<close>

function ReplaceAllStringFunc :: "item list \<Rightarrow> (string \<Rightarrow> string) \<Rightarrow> string \<Rightarrow> string" where
  "ReplaceAllStringFunc p repl [] = []"
| "ReplaceAllStringFunc p repl (c # cs) =
     (case match_items p (c # cs) of
        None \<Rightarrow> c # ReplaceAllStringFunc p repl cs
      | Some (m, r) \<Rightarrow>
          if length r < length (c # cs) then repl m @ ReplaceAllStringFunc p repl r
          else c # ReplaceAllStringFunc p repl cs)"
  by pat_completeness auto
termination
  by (relation "measure (\<lambda>(p, repl, s). length s)") auto

text \<open>
  The replacement function of \<open>sanitizeErrorBody\<close>: \<open>strings.Split(match, ":")\<close> has two
  parts or more exactly when the match holds a colon, and its first part is the match up
  to the first colon.
\<close>

definition redact :: "string \<Rightarrow> string" where
  "redact match =
     (if CHR '':'' \<in> set match
      then takeWhile (\<lambda>x. x \<noteq> CHR '':'') match @ '': \"[REDACTED]\"''
      else ''\"[REDACTED]\"'')"

definition truncate_body :: "string \<Rightarrow> string" where
  "truncate_body body =
     (if const_maxErrorBodyLength < length body
      then take const_maxErrorBodyLength body @ ''... (truncated)''
      else body)"

definition sanitizeErrorBody :: "string \<Rightarrow> string" where
  "sanitizeErrorBody body =
     foldl (\<lambda>b p. ReplaceAllStringFunc p redact b) (truncate_body body) sanitizePatterns"


subsection \<open>Error messages\<close>

text \<open>\<open>%d\<close> of an integer.\<close>

function digits_of :: "nat \<Rightarrow> string" where
  "digits_of n =
     (if n < 10 then [''0123456789'' ! n]
      else digits_of (n div 10) @ [''0123456789'' ! (n mod 10)])"
  by pat_completeness auto
termination
  by (relation "measure (\<lambda>n. n)") auto

declare digits_of.simps [simp del]

definition itoa :: "int \<Rightarrow> string" where
  "itoa i = (if i < 0 then CHR ''-'' # digits_of (nat (- i)) else digits_of (nat i))"

text \<open>The \<open>Error()\<close> method of each kind.\<close>

fun Error :: "error \<Rightarrow> string" where
  "Error (APIError status body) =
     ''API error (status '' @ itoa status @ ''): '' @ sanitizeErrorBody body"
| "Error (RateLimitError retryAfter) =
     ''rate limit exceeded, retry after '' @ itoa retryAfter @ '' seconds''"
| "Error (AuthError reason) = ''authentication failed: '' @ reason"
| "Error CircuitBreakerError =
     ''circuit breaker open: too many consecutive failures, requests temporarily blocked''"
| "Error (ValidationError field message) =
     ''validation error on field '' @ [CHR 0x27] @ field @ [CHR 0x27] @ '': '' @ message"
| "Error ErrNotConfigured =
     ''docuseal not configured - run '' @ [CHR 0x27] @ ''docuseal auth login'' @ [CHR 0x27]
       @ '' or set DOCUSEAL_URL and DOCUSEAL_API_KEY''"
| "Error (ContextError Canceled) = ''context canceled''"
| "Error (ContextError DeadlineExceeded) = ''context deadline exceeded''"
| "Error (NetError t msg) = msg"
| "Error (NetWrapped t p e) = p @ Error e"
| "Error (OtherError msg) = msg"
| "Error (Wrapped p e) = p @ Error e"

subsection \<open>One request: \<open>doOnce\<close>\<close>

text \<open>
  What one call of \<open>doOnce\<close> meets, in the order of its steps: \<open>json.Marshal\<close> of the
  request body fails; \<open>http.NewRequestWithContext\<close> fails; \<open>c.HTTP.Do\<close> fails (DNS,
  connection, cancelled context); reading the response body fails; or a response with a
  status code and a body arrives.
\<close>

datatype transport =
    MarshalFails error
  | NewRequestFails error
  | DoFails error
  | ReadFails error
  | Response int string

fun network_call :: "transport \<Rightarrow> bool" where
  "network_call (MarshalFails e) = False"
| "network_call (NewRequestFails e) = False"
| "network_call t = True"

definition preview_of :: "string \<Rightarrow> string" where
  "preview_of respBody =
     (if 100 < length respBody then take 100 respBody @ ''...'' else respBody)"

definition format_error :: "string \<Rightarrow> error \<Rightarrow> error" where
  "format_error respBody err =
     Wrapped (''unexpected API response format (got: '' @ preview_of respBody @ ''): '') err"

text \<open>
  \<open>encoding/json\<close> is a library: \<open>doOnce\<close> takes its two uses as parameters.
  \<open>unmarshal b d\<close> is \<open>json.Unmarshal(b, result)\<close> for a destination that holds \<open>d\<close>:
  the error, and what the destination holds afterwards. \<open>unmarshal_wrapper b\<close> is
  \<open>json.Unmarshal(b, &wrapper)\<close> on a fresh wrapper: the error, and \<open>wrapper.Data\<close>
  afterwards (\<open>None\<close> for \<open>nil\<close>). The destination \<open>result\<close> is \<open>None\<close> when the caller
  passes \<open>nil\<close>.
\<close>

definition doOnce ::
  "(string \<Rightarrow> 'd \<Rightarrow> error option \<times> 'd) \<Rightarrow> (string \<Rightarrow> error option \<times> string option)
    \<Rightarrow> transport \<Rightarrow> 'd option \<Rightarrow> error option \<times> 'd option" where
  "doOnce unmarshal unmarshal_wrapper t result =
     (case t of
        MarshalFails e \<Rightarrow> (Some (Wrapped ''failed to marshal request body: '' e), result)
      | NewRequestFails e \<Rightarrow> (Some (Wrapped ''failed to create request: '' e), result)
      | DoFails e \<Rightarrow> (Some (Wrapped ''request failed: '' e), result)
      | ReadFails e \<Rightarrow> (Some (Wrapped ''failed to read response: '' e), result)
      | Response status respBody \<Rightarrow>
          if 400 \<le> status then (Some (APIError status respBody), result)
          else
            (case result of
               None \<Rightarrow> (None, None)
             | Some d \<Rightarrow>
                 if respBody = [] then (None, Some d)
                 else
                   (case unmarshal respBody d of
                      (None, d1) \<Rightarrow> (None, Some d1)
                    | (Some err, d1) \<Rightarrow>
                        (case unmarshal_wrapper respBody of
                           (None, Some data) \<Rightarrow>
                             (case unmarshal data d1 of
                                (None, d2) \<Rightarrow> (None, Some d2)
                              | (Some dataErr, d2) \<Rightarrow>
                                  (Some (format_error respBody err), Some d2))
                         | (wrapErr, data) \<Rightarrow>
                             (Some (format_error respBody err), Some d1)))))"

subsection \<open>The retry loop: \<open>do\<close>\<close>

text \<open>
  \<open>int(d.Seconds())\<close> for a duration \<open>d\<close>. \<open>Seconds\<close> computes, in \<open>float64\<close>,
  \<open>float64(sec) + float64(nsec)/1e9\<close> with \<open>sec = d / Second\<close> and \<open>nsec = d % Second\<close>,
  and the conversion to \<open>int\<close> drops the fraction. A \<open>float64\<close> is written here as a
  pair \<open>(m, k)\<close> of integers that stands for \<open>m * 2 ^ k\<close>. \<open>float64_div a b\<close> is the
  \<open>float64\<close> nearest to \<open>a / b\<close> (for \<open>b > 0\<close>, ties to the even significand): with
  \<open>2 ^ e \<le> |a / b| < 2 ^ (e + 1)\<close>, the quotient is rounded to a multiple of
  \<open>2 ^ (e - 52)\<close>. All values that occur are 0 or lie in the normal range. The integers
  \<open>sec\<close> (below \<open>2 ^ 34\<close>), \<open>nsec\<close> and \<open>10 ^ 9\<close> are themselves \<open>float64\<close> values.
\<close>

text \<open>\<open>num / den\<close> rounded to the nearest integer, ties to even (\<open>den > 0\<close>).\<close>

definition rne :: "int \<Rightarrow> int \<Rightarrow> int" where
  "rne num den =
     (let q = num div den; r = num mod den
      in if 2 * r < den then q else if den < 2 * r then q + 1
         else if even q then q else q + 1)"

text \<open>The \<open>e\<close> with \<open>2 ^ e \<le> |a| / b < 2 ^ (e + 1)\<close>, for \<open>a \<noteq> 0\<close> and \<open>b > 0\<close>.\<close>

definition exponent_of :: "int \<Rightarrow> int \<Rightarrow> int" where
  "exponent_of a b =
     (let e0 = bitlen \<bar>a\<bar> - bitlen b
      in if (if 0 \<le> e0 then 2 ^ nat e0 * b \<le> \<bar>a\<bar> else b \<le> \<bar>a\<bar> * 2 ^ nat (- e0))
         then e0 else e0 - 1)"

definition float64_div :: "int \<Rightarrow> int \<Rightarrow> int \<times> int" where
  "float64_div a b =
     (if a = 0 then (0, 0)
      else
        (let k = exponent_of a b - 52
         in if 0 \<le> k then (rne a (b * 2 ^ nat k), k)
            else (rne (a * 2 ^ nat (- k)) b, k)))"

text \<open>
  The sum \<open>float64(sec) + f\<close>, for the quotient \<open>f = m1 * 2 ^ k1\<close> (where \<open>k1 \<le> 0\<close>), is
  the \<open>float64\<close> nearest to \<open>(sec * 2 ^ (- k1) + m1) / 2 ^ (- k1)\<close>.
\<close>

definition Seconds_int :: "int \<Rightarrow> int" where
  "Seconds_int d =
     (let sec = quot d Second;
          nsec = d - sec * Second;
          (m1, k1) = float64_div nsec Second;
          (m2, k2) = float64_div (sec * 2 ^ nat (- k1) + m1) (2 ^ nat (- k1))
      in if 0 \<le> k2 then m2 * 2 ^ nat k2 else quot m2 (2 ^ nat (- k2)))"

text \<open>
  The world around one call of \<open>do\<close>, by request number (from 0): what the request meets;
  the clock that \<open>recordFailure\<close> reads after it; the generator's draw for the jitter of
  the backoff that follows it (\<open>rand.Int64N n\<close> is the draw modulo \<open>n\<close>, and panics for
  \<open>n \<le> 0\<close>); and whether the \<open>select\<close> of that backoff takes \<open>ctx.Done()\<close>, with the
  \<open>ctx.Err()\<close> it then returns, or the timer.
\<close>

record env =
  meets :: "nat \<Rightarrow> transport"
  clock :: "nat \<Rightarrow> int"
  draw :: "nat \<Rightarrow> int"
  ctx_done :: "nat \<Rightarrow> ctx_error option"

datatype 'a go_result = Return 'a | Panic string

text \<open>
  What a call of \<open>do\<close> leaves: the error it returns (\<open>None\<close> for \<open>nil\<close>) or a panic, the
  breaker, the number of requests sent with \<open>c.HTTP.Do\<close>, the destination, and the
  backoff sleeps that ran to their end.
\<close>

record 'd do_result =
  returned :: "error option go_result"
  breaker :: circuitBreaker
  attempts :: nat
  dest :: "'d option"
  sleeps :: "int list"

text \<open>
  The backoff of the 429 branch: \<open>delay := c.baseDelay * time.Duration(1<<attempt)\<close> and
  \<open>maxJitter := int64(delay / 2)\<close>.
\<close>

definition delay_of :: "Client \<Rightarrow> int \<Rightarrow> int" where
  "delay_of c attempt = int64 (baseDelay c * shl1 attempt)"

definition maxJitter_of :: "Client \<Rightarrow> int \<Rightarrow> int" where
  "maxJitter_of c attempt = quot (delay_of c attempt) 2"

text \<open>
  The loop of \<open>do\<close> from \<open>attempt\<close> on, with the breaker \<open>b\<close>, the requests sent so far
  \<open>n\<close>, the destination and the sleeps so far. The loop variable is a Go \<open>int\<close>; it never
  reaches the end of its range, since from attempt 64 on \<open>1<<attempt\<close> is 0 and the 429
  branch, the only one that continues, panics. The request itself (URL, headers, the
  idempotency key of a POST) has no part in what \<open>do\<close> returns but through what the
  request meets.
\<close>

function do_loop ::
  "(string \<Rightarrow> 'd \<Rightarrow> error option \<times> 'd) \<Rightarrow> (string \<Rightarrow> error option \<times> string option)
    \<Rightarrow> Client \<Rightarrow> env \<Rightarrow> int \<Rightarrow> circuitBreaker \<Rightarrow> nat \<Rightarrow> 'd option \<Rightarrow> int list
    \<Rightarrow> 'd do_result" where
  "do_loop um uw c e attempt b n result sl =
     (if \<not> attempt \<le> maxRetries c then
        \<lparr>returned = Return None, breaker = b, attempts = n, dest = result, sleeps = sl\<rparr>
      else
        (let i = nat attempt;
             (err, result') = doOnce um uw (meets e i) result;
             n' = (if network_call (meets e i) then n + 1 else n)
         in case err of
              None \<Rightarrow>
                \<lparr>returned = Return None, breaker = recordSuccess b, attempts = n',
                 dest = result', sleeps = sl\<rparr>
            | Some er \<Rightarrow>
                (case errors_As is_APIError er of
                   Some (APIError status body) \<Rightarrow>
                     if status = 401 \<or> status = 403 then
                       \<lparr>returned =
                          Return (Some (AuthError ''invalid API key or insufficient permissions'')),
                        breaker = recordFailure b (clock e i), attempts = n',
                        dest = result', sleeps = sl\<rparr>
                     else if status = 429 then
                       (if attempt < maxRetries c then
                          (let delay = delay_of c attempt;
                               maxJitter = maxJitter_of c attempt
                           in if maxJitter \<le> 0 then
                                \<lparr>returned = Panic ''invalid argument to Int64N'',
                                 breaker = b, attempts = n', dest = result', sleeps = sl\<rparr>
                              else
                                (let jitter = draw e i mod maxJitter;
                                     sleepDuration = int64 (delay + jitter)
                                 in case ctx_done e i of
                                      Some ce \<Rightarrow>
                                        \<lparr>returned = Return (Some (ContextError ce)),
                                         breaker = b, attempts = n', dest = result',
                                         sleeps = sl\<rparr>
                                    | None \<Rightarrow>
                                        do_loop um uw c e (attempt + 1) b n' result'
                                          (sl @ [sleepDuration])))
                        else
                          \<lparr>returned =
                             Return (Some (RateLimitError
                               (Seconds_int (int64 (baseDelay c * shl1 (maxRetries c)))))),
                           breaker = b, attempts = n', dest = result', sleeps = sl\<rparr>)
                     else
                       \<lparr>returned = Return (Some er),
                        breaker = (if 500 \<le> status then recordFailure b (clock e i) else b),
                        attempts = n', dest = result', sleeps = sl\<rparr>
                 | _ \<Rightarrow>
                     \<lparr>returned = Return (Some er), breaker = b, attempts = n',
                      dest = result', sleeps = sl\<rparr>)))"
  by pat_completeness auto
termination
  by (relation "measure (\<lambda>(um, uw, c, e, attempt, b, n, result, sl). nat (maxRetries c + 1 - attempt))")
     auto

declare do_loop.simps [simp del]

text \<open>
  \<open>do\<close>, called when the clock reads \<open>now\<close>. The client's breaker is the one the result
  holds afterwards.
\<close>

definition Client_do ::
  "(string \<Rightarrow> 'd \<Rightarrow> error option \<times> 'd) \<Rightarrow> (string \<Rightarrow> error option \<times> string option)
    \<Rightarrow> Client \<Rightarrow> int \<Rightarrow> env \<Rightarrow> 'd option \<Rightarrow> 'd do_result" where
  "Client_do um uw c now e result =
     (case isOpen (cb c) now of
        (True, b) \<Rightarrow>
          \<lparr>returned = Return (Some CircuitBreakerError), breaker = b, attempts = 0,
           dest = result, sleeps = []\<rparr>
      | (False, b) \<Rightarrow> do_loop um uw c e 0 b 0 result [])"

subsection \<open>The boundary: exit codes and error output\<close>

definition HasPrefix :: "string \<Rightarrow> string \<Rightarrow> bool" where
  "HasPrefix s prefix = (length prefix \<le> length s \<and> take (length prefix) s = prefix)"

definition TrimPrefix :: "string \<Rightarrow> string \<Rightarrow> string" where
  "TrimPrefix s prefix = (if HasPrefix s prefix then drop (length prefix) s else s)"

datatype Mode = Text | JSON | NDJSON

text \<open>
  \<open>outfmt.Parse\<close>. The message of its error quotes the input with \<open>%q\<close>; the quoting
  is written here for an input of printable ASCII without quote or backslash.
\<close>

definition Parse :: "string \<Rightarrow> Mode \<times> error option" where
  "Parse s =
     (if s = ''text'' \<or> s = [] then (Text, None)
      else if s = ''json'' then (JSON, None)
      else if s = ''ndjson'' \<or> s = ''jsonl'' then (NDJSON, None)
      else (Text, Some (OtherError (''invalid output format: '' @ [CHR 0x22] @ s @ [CHR 0x22]
              @ '' (use '' @ [CHR 0x27] @ ''text'' @ [CHR 0x27] @ '', '' @ [CHR 0x27] @ ''json''
              @ [CHR 0x27] @ '', or '' @ [CHR 0x27] @ ''ndjson'' @ [CHR 0x27] @ '')''))))"

text \<open>
  \<open>DetectOutputMode\<close> over the arguments; \<open>envOutput\<close> is the value of the environment
  variable \<open>DOCUSEAL_OUTPUT\<close> (empty when unset).
\<close>

fun DetectOutputMode :: "string list \<Rightarrow> string \<Rightarrow> Mode \<times> error option" where
  "DetectOutputMode [] envOutput = (if envOutput \<noteq> [] then Parse envOutput else (Text, None))"
| "DetectOutputMode (a # args) envOutput =
     (if a = ''--output'' \<or> a = ''-o'' then
        (case args of [] \<Rightarrow> (Text, None) | v # rest \<Rightarrow> Parse v)
      else if HasPrefix a ''--output='' then Parse (TrimPrefix a ''--output='')
      else DetectOutputMode args envOutput)"

text \<open>
  The types that implement \<open>net.Error\<close>, and their \<open>Timeout()\<close>:
  \<open>context.DeadlineExceeded\<close> is one of them.
\<close>

fun is_net_Error :: "error \<Rightarrow> bool" where
  "is_net_Error (NetError t msg) = True"
| "is_net_Error (NetWrapped t p e) = True"
| "is_net_Error (ContextError DeadlineExceeded) = True"
| "is_net_Error e = False"

fun net_Timeout :: "error \<Rightarrow> bool" where
  "net_Timeout (NetError t msg) = t"
| "net_Timeout (NetWrapped t p e) = t"
| "net_Timeout (ContextError DeadlineExceeded) = True"
| "net_Timeout e = False"

definition classifyError :: "error \<Rightarrow> string" where
  "classifyError err =
     (if errors_Is err ErrNotConfigured then ''not_configured''
      else if IsAuthError err then ''auth''
      else if IsRateLimitError err then ''rate_limit''
      else if IsValidationError err then ''validation''
      else if IsCircuitBreakerError err then ''circuit_breaker''
      else if errors_Is err (ContextError DeadlineExceeded) then ''timeout''
      else
        (case errors_As is_net_Error err of
           Some ne \<Rightarrow> if net_Timeout ne then ''timeout'' else ''unknown''
         | None \<Rightarrow> ''unknown''))"

definition ExitCode :: "error \<Rightarrow> int" where
  "ExitCode err =
     (let kind = classifyError err
      in if kind = ''validation'' then 2
         else if kind = ''auth'' then 3
         else if kind = ''rate_limit'' then 4
         else if kind = ''not_configured'' then 5
         else if kind = ''circuit_breaker'' then 6
         else if kind = ''timeout'' then 7
         else 1)"

text \<open>
  What \<open>WriteError\<close> writes: in the JSON modes the payload map that the encoder is given
  (the encoder writes its keys sorted), otherwise one line of text.
\<close>

datatype payload_value = PString string | PInt int

datatype written = Payload "(string \<times> payload_value) list" | Line string

definition WriteError :: "string list \<Rightarrow> string \<Rightarrow> error \<Rightarrow> written" where
  "WriteError args envOutput err =
     (let (mode0, parseErr) = DetectOutputMode args envOutput;
          mode = (if parseErr \<noteq> None then Text else mode0);
          exitCode = ExitCode err
      in if mode = JSON \<or> mode = NDJSON then
           Payload
             ([(''error'', PString (Error err)),
               (''type'', PString (classifyError err)),
               (''exit_code'', PInt exitCode)]
              @ (case errors_As is_RateLimitError err of
                   Some (RateLimitError retryAfter) \<Rightarrow>
                     [(''retry_after_seconds'', PInt retryAfter)]
                 | _ \<Rightarrow> []))
         else Line (''Error: '' @ Error err @ [CHR 0x0A]))"

text \<open>
  For the statement of the exit codes: the kind of an error is the kind of the innermost
  error of its chain, and each kind that the boundary knows has its code. An error times
  out when the outermost \<open>net.Error\<close> of its chain says so.
\<close>

fun root :: "error \<Rightarrow> error" where
  "root (Wrapped p e) = root e"
| "root (NetWrapped t p e) = root e"
| "root e = e"

fun code_of_kind :: "error \<Rightarrow> int option" where
  "code_of_kind (ValidationError field message) = Some 2"
| "code_of_kind (AuthError reason) = Some 3"
| "code_of_kind (RateLimitError retryAfter) = Some 4"
| "code_of_kind ErrNotConfigured = Some 5"
| "code_of_kind CircuitBreakerError = Some 6"
| "code_of_kind (ContextError DeadlineExceeded) = Some 7"
| "code_of_kind e = None"

fun times_out :: "error \<Rightarrow> bool" where
  "times_out (Wrapped p e) = times_out e"
| "times_out (NetWrapped t p e) = t"
| "times_out (NetError t msg) = t"
| "times_out (ContextError DeadlineExceeded) = True"
| "times_out e = False"

subsection \<open>Scenarios and conditions of the statements\<close>

text \<open>
  Concrete worlds for the examples: every request meets the same thing, the clock stands
  at 0, the generator draws 0 and the context is never done. The two decoders are those of
  a caller that passes no destination.
\<close>

definition always :: "transport \<Rightarrow> env" where
  "always t =
     \<lparr>meets = (\<lambda>i. t), clock = (\<lambda>i. 0), draw = (\<lambda>i. 0), ctx_done = (\<lambda>i. None)\<rparr>"

definition no_unmarshal :: "string \<Rightarrow> unit \<Rightarrow> error option \<times> unit" where
  "no_unmarshal b d = (None, d)"

definition no_wrapper :: "string \<Rightarrow> error option \<times> string option" where
  "no_wrapper b = (None, None)"

text \<open>The request meets a response with the given status code.\<close>

fun has_status :: "int \<Rightarrow> transport \<Rightarrow> bool" where
  "has_status s (Response status body) = (status = s)"
| "has_status s t = False"

text \<open>
  Request \<open>i\<close> is answered 429 and the backoff after it runs to its end: the jitter
  bound is positive and the timer, not the context, ends the wait.
\<close>

definition retried :: "Client \<Rightarrow> env \<Rightarrow> nat \<Rightarrow> bool" where
  "retried c e i =
     (has_status 429 (meets e i) \<and> 0 < maxJitter_of c (int i) \<and> ctx_done e i = None)"



text \<open>
  \<open>json.Unmarshal\<close> on the bodies of the examples, written down from the library's rules.
  Into a struct with the one field \<open>Status\<close> (key \<open>status\<close>): an object sets the fields
  whose keys it holds and ignores its other keys. Into a \<open>[]string\<close>: an array of strings
  is stored, an object is a type error that leaves the slice as it was. Into the wrapper
  of \<open>doOnce\<close>: an object gives the bytes under its key \<open>data\<close>, or leaves \<open>Data\<close> nil
  when it has no such key; an array is a type error. The last line of each table stands
  for the bodies that no example uses.
\<close>

record StatusReply =
  Status :: string

definition unmarshal_StatusReply ::
  "string \<Rightarrow> StatusReply \<Rightarrow> error option \<times> StatusReply" where
  "unmarshal_StatusReply b d =
     (if b = ''{\"status\":\"ok\"}'' then (None, d\<lparr>Status := ''ok''\<rparr>)
      else if b = ''{\"data\":{\"status\":\"ok\"}}'' then (None, d)
      else (Some (OtherError ''body outside the examples''), d))"

definition unmarshal_strings :: "string \<Rightarrow> string list \<Rightarrow> error option \<times> string list" where
  "unmarshal_strings b d =
     (if b = ''[\"a\",\"b\"]'' then (None, [''a'', ''b''])
      else if b = ''{\"data\":[\"a\",\"b\"]}''
      then (Some (OtherError ''json: cannot unmarshal object into Go value of type []string''), d)
      else (Some (OtherError ''body outside the examples''), d))"

definition unmarshal_wrapper_examples :: "string \<Rightarrow> error option \<times> string option" where
  "unmarshal_wrapper_examples b =
     (if b = ''{\"data\":{\"status\":\"ok\"}}'' then (None, Some ''{\"status\":\"ok\"}'')
      else if b = ''{\"data\":[\"a\",\"b\"]}'' then (None, Some ''[\"a\",\"b\"]'')
      else if b = ''{\"status\":\"ok\"}'' then (None, None)
      else if b = ''[\"a\",\"b\"]''
      then (Some (OtherError ''json: cannot unmarshal array into Go value of type struct''), None)
      else (Some (OtherError ''body outside the examples''), None))"

section \<open>Properties\<close>

subsection \<open>Base URL normalization\<close>

lemma apply_option_BaseURL: "BaseURL (apply_option opt c) = BaseURL c"
  by (cases opt) simp_all

lemma foldl_options_BaseURL:
  "BaseURL (foldl (\<lambda>c opt. apply_option opt c) c opts) = BaseURL c"
  by (induction opts arbitrary: c) (simp_all add: apply_option_BaseURL)

lemma HasSuffix_append: "HasSuffix (b @ s) s"
  by (simp add: HasSuffix_def)

lemma BaseURL_NewWithOptions:
  "BaseURL (NewWithOptions u k opts) =
     (if HasSuffix (TrimSuffix u ''/'') ''/api'' then TrimSuffix u ''/''
      else TrimSuffix u ''/'' @ ''/api'')"
  by (simp add: NewWithOptions_def Let_def foldl_options_BaseURL)

lemma BaseURL_has_api: "HasSuffix (BaseURL (NewWithOptions u k opts)) ''/api''"
  by (simp add: BaseURL_NewWithOptions HasSuffix_append)

lemma HasSuffix_api_no_slash: "HasSuffix s ''/api'' \<Longrightarrow> TrimSuffix s ''/'' = s"
proof -
  assume h: "HasSuffix s ''/api''"
  then obtain p where "s = p @ ''/api''"
    by (metis HasSuffix_def append_take_drop_id)
  then have "\<not> HasSuffix s ''/''"
    by (simp add: HasSuffix_def)
  then show ?thesis
    by (simp add: TrimSuffix_def)
qed

text \<open>
  C7. The base URL that \<open>NewWithOptions\<close> stores is a fixed point of the normalization:
  constructing a client from an already normalized URL stores the same URL, whatever the
  key and the options; and the four spellings of the host \<open>https://h\<close> all give
  \<open>https://h/api\<close>.
\<close>

theorem C7_normalize_idempotent:
  "BaseURL (NewWithOptions (BaseURL (NewWithOptions u k opts)) k' opts')
     = BaseURL (NewWithOptions u k opts)
   \<and> BaseURL (NewWithOptions ''https://h'' k opts) = ''https://h/api''
   \<and> BaseURL (NewWithOptions ''https://h/'' k opts) = ''https://h/api''
   \<and> BaseURL (NewWithOptions ''https://h/api'' k opts) = ''https://h/api''
   \<and> BaseURL (NewWithOptions ''https://h/api/'' k opts) = ''https://h/api''"
proof -
  let ?n = "BaseURL (NewWithOptions u k opts)"
  have a: "HasSuffix ?n ''/api''"
    by (rule BaseURL_has_api)
  have b: "TrimSuffix ?n ''/'' = ?n"
    using a by (rule HasSuffix_api_no_slash)
  have idem: "BaseURL (NewWithOptions ?n k' opts') = ?n"
    using a b by (simp add: BaseURL_NewWithOptions [of ?n])
  have e1: "BaseURL (NewWithOptions ''https://h'' k opts) = ''https://h/api''"
    by (simp add: BaseURL_NewWithOptions TrimSuffix_def HasSuffix_def)
  have e2: "BaseURL (NewWithOptions ''https://h/'' k opts) = ''https://h/api''"
    by (simp add: BaseURL_NewWithOptions TrimSuffix_def HasSuffix_def)
  have e3: "BaseURL (NewWithOptions ''https://h/api'' k opts) = ''https://h/api''"
    by (simp add: BaseURL_NewWithOptions TrimSuffix_def HasSuffix_def)
  have e4: "BaseURL (NewWithOptions ''https://h/api/'' k opts) = ''https://h/api''"
    by (simp add: BaseURL_NewWithOptions TrimSuffix_def HasSuffix_def)
  from idem e1 e2 e3 e4 show ?thesis by simp
qed

theorem C7_normalize_idempotent_witness:
  "BaseURL (NewWithOptions (BaseURL (NewWithOptions ''https://h/api/'' ''k'' [])) ''k'' [WithRetries 0])
     = ''https://h/api''"
proof -
  note t = C7_normalize_idempotent [of "''https://h/api/''" "''k''" "[]" "''k''" "[WithRetries 0]"]
  from t have a: "BaseURL (NewWithOptions (BaseURL (NewWithOptions ''https://h/api/'' ''k'' [])) ''k'' [WithRetries 0])
     = BaseURL (NewWithOptions ''https://h/api/'' ''k'' [])"
    by (rule conjunct1)
  from t have b: "BaseURL (NewWithOptions ''https://h/api/'' ''k'' []) = ''https://h/api''"
    by blast
  from a b show ?thesis
    by (rule trans)
qed


subsection \<open>Steps of the retry loop\<close>

lemma doOnce_error_status:
  "400 \<le> status \<Longrightarrow> doOnce um uw (Response status body) result = (Some (APIError status body), result)"
  by (simp add: doOnce_def)

lemma isOpen_closed: "failures b < maxFailures b \<Longrightarrow> isOpen b now = (False, b)"
  by (simp add: isOpen_def)

lemma do_loop_auth:
  assumes "attempt \<le> maxRetries c" "meets e (nat attempt) = Response status body" "status = 401 \<or> status = 403"
  shows "do_loop um uw c e attempt b n result sl =
     \<lparr>returned = Return (Some (AuthError ''invalid API key or insufficient permissions'')),
      breaker = recordFailure b (clock e (nat attempt)), attempts = n + 1, dest = result, sleeps = sl\<rparr>"
  using assms
  by (subst do_loop.simps) (auto simp add: doOnce_error_status Let_def)

lemma do_loop_server_error:
  assumes "attempt \<le> maxRetries c" "meets e (nat attempt) = Response status body" "500 \<le> status"
  shows "do_loop um uw c e attempt b n result sl =
     \<lparr>returned = Return (Some (APIError status body)),
      breaker = recordFailure b (clock e (nat attempt)), attempts = n + 1, dest = result, sleeps = sl\<rparr>"
  using assms
  by (subst do_loop.simps) (auto simp add: doOnce_error_status Let_def)

lemma do_loop_429_retry:
  assumes "attempt < maxRetries c" "meets e (nat attempt) = Response 429 body"
    "0 < maxJitter_of c attempt" "ctx_done e (nat attempt) = None"
  shows "do_loop um uw c e attempt b n result sl =
     do_loop um uw c e (attempt + 1) b (n + 1) result
       (sl @ [int64 (delay_of c attempt + draw e (nat attempt) mod maxJitter_of c attempt)])"
  using assms
  by (subst do_loop.simps) (auto simp add: doOnce_error_status Let_def)

lemma do_loop_429_cancel:
  assumes "attempt < maxRetries c" "meets e (nat attempt) = Response 429 body"
    "0 < maxJitter_of c attempt" "ctx_done e (nat attempt) = Some ce"
  shows "do_loop um uw c e attempt b n result sl =
     \<lparr>returned = Return (Some (ContextError ce)), breaker = b, attempts = n + 1, dest = result, sleeps = sl\<rparr>"
  using assms
  by (subst do_loop.simps) (auto simp add: doOnce_error_status Let_def)

lemma do_loop_429_panic:
  assumes "attempt < maxRetries c" "meets e (nat attempt) = Response 429 body"
    "maxJitter_of c attempt \<le> 0"
  shows "do_loop um uw c e attempt b n result sl =
     \<lparr>returned = Panic ''invalid argument to Int64N'', breaker = b, attempts = n + 1, dest = result, sleeps = sl\<rparr>"
  using assms
  by (subst do_loop.simps) (auto simp add: doOnce_error_status Let_def)

lemma do_loop_429_exhausted:
  assumes "attempt = maxRetries c" "meets e (nat attempt) = Response 429 body"
  shows "do_loop um uw c e attempt b n result sl =
     \<lparr>returned = Return (Some (RateLimitError (Seconds_int (int64 (baseDelay c * shl1 (maxRetries c)))))),
      breaker = b, attempts = n + 1, dest = result, sleeps = sl\<rparr>"
  using assms
  by (subst do_loop.simps) (auto simp add: doOnce_error_status Let_def)

lemma int64_id: "- (2 ^ 63) \<le> x \<Longrightarrow> x < 2 ^ 63 \<Longrightarrow> int64 x = x"
  by (simp add: int64_def)

lemma pow_le_of_mult_le:
  fixes d :: int
  assumes "1 \<le> d" "d * 2 ^ k \<le> m"
  shows "(2::int) ^ k \<le> m"
proof -
  have "(2::int) ^ k * 1 \<le> 2 ^ k * d"
    by (rule mult_left_mono) (use assms(1) in simp_all)
  then have "(2::int) ^ k \<le> d * 2 ^ k"
    by (simp add: mult.commute)
  then show ?thesis using assms(2) by (rule order_trans)
qed

lemma delay_of_exact:
  assumes "1 \<le> baseDelay c" "0 \<le> attempt" "baseDelay c * 2 ^ nat attempt \<le> MaxInt64"
  shows "delay_of c attempt = baseDelay c * 2 ^ nat attempt"
proof -
  have p: "(2::int) ^ nat attempt \<le> MaxInt64"
    using assms(1,3) by (rule pow_le_of_mult_le)
  have lo: "- (2 ^ 63) \<le> (2::int) ^ nat attempt"
    by (rule order_trans [of _ 0]) simp_all
  have hi: "(2::int) ^ nat attempt < 2 ^ 63"
    using p by (simp add: MaxInt64_def)
  have "shl1 attempt = 2 ^ nat attempt"
    unfolding shl1_def using lo hi by (rule int64_id)
  moreover have "0 \<le> baseDelay c * 2 ^ nat attempt"
    using assms(1) by simp
  ultimately show ?thesis
    unfolding delay_of_def using assms(3) by (simp add: int64_id MaxInt64_def)
qed

lemma shl1_from_64: "64 \<le> n \<Longrightarrow> shl1 n = 0"
proof -
  assume n: "64 \<le> n"
  define k where "k = nat n - 64"
  have k: "nat n = 64 + k" using n by (simp add: k_def)
  have p: "(2::int) ^ (64 + k) = 2 ^ k * 2 ^ 64"
    by (simp only: power_add mult.commute)
  have e: "(2::int) ^ (64 + k) + 2 ^ 63 = 2 ^ 63 + 2 ^ k * 2 ^ 64"
    unfolding p by (rule add.commute)
  have "((2::int) ^ (64 + k) + 2 ^ 63) mod 2 ^ 64 = (2 ^ 63 + 2 ^ k * 2 ^ 64) mod 2 ^ 64"
    by (simp only: e)
  also have "\<dots> = 2 ^ 63 mod 2 ^ 64"
    by (rule mod_mult_self1)
  also have "\<dots> = (2::int) ^ 63"
    by simp
  finally have "((2::int) ^ (64 + k) + 2 ^ 63) mod 2 ^ 64 - 2 ^ 63 = 0"
    by (simp only: diff_self)
  then show ?thesis
    by (simp only: shl1_def int64_def k)
qed

lemma maxJitter_from_64: "64 \<le> attempt \<Longrightarrow> maxJitter_of c attempt = 0"
  by (simp add: maxJitter_of_def delay_of_def shl1_from_64 int64_def quot_def)

lemma quot_nonneg: "0 \<le> a \<Longrightarrow> 0 < b \<Longrightarrow> quot a b = a div b"
  by (cases "a = 0") (simp_all add: quot_def)

lemma maxJitter_positive:
  assumes "2 \<le> baseDelay c" "0 \<le> attempt" "baseDelay c * 2 ^ nat attempt \<le> MaxInt64"
  shows "0 < maxJitter_of c attempt"
proof -
  have d: "delay_of c attempt = baseDelay c * 2 ^ nat attempt"
    using assms by (intro delay_of_exact) simp_all
  have "(2::int) * 1 \<le> baseDelay c * 2 ^ nat attempt"
    using assms(1) by (intro mult_mono) simp_all
  then have "2 \<le> delay_of c attempt"
    using d by simp
  then show ?thesis
    by (simp add: maxJitter_of_def quot_nonneg)
qed

lemma mult_pow_mono:
  fixes d :: int
  assumes "0 \<le> d" "i \<le> k"
  shows "d * 2 ^ i \<le> d * 2 ^ k"
  using assms by (intro mult_left_mono power_increasing) simp_all

lemma do_loop_429_run:
  assumes "\<forall>i. a \<le> i \<and> i < k \<longrightarrow>
             (\<exists>body. meets e (nat i) = Response 429 body) \<and> 0 < maxJitter_of c i
               \<and> ctx_done e (nat i) = None"
    and "a \<le> k" and "k \<le> maxRetries c"
  shows "\<exists>sl'. do_loop um uw c e a b n result sl =
            do_loop um uw c e k b (n + nat (k - a)) result sl'"
  using assms
proof (induction "nat (k - a)" arbitrary: a n sl)
  case 0
  then have "a = k" by simp
  then show ?case by auto
next
  case (Suc m)
  then have lt: "a < k" by linarith
  from Suc.prems(1) lt obtain body where
    m: "meets e (nat a) = Response 429 body" and j: "0 < maxJitter_of c a"
    and d: "ctx_done e (nat a) = None"
    by (metis order_refl)
  have step: "do_loop um uw c e a b n result sl =
     do_loop um uw c e (a + 1) b (n + 1) result
       (sl @ [int64 (delay_of c a + draw e (nat a) mod maxJitter_of c a)])"
    using lt Suc.prems(3) m j d by (intro do_loop_429_retry) simp_all
  have m': "m = nat (k - (a + 1))" using Suc.hyps(2) by linarith
  have all': "\<forall>i. a + 1 \<le> i \<and> i < k \<longrightarrow>
             (\<exists>body. meets e (nat i) = Response 429 body) \<and> 0 < maxJitter_of c i
               \<and> ctx_done e (nat i) = None"
    using Suc.prems(1) by simp
  have le': "a + 1 \<le> k" using lt by simp
  have cnt: "n + 1 + nat (k - (a + 1)) = n + nat (k - a)"
    using lt by linarith
  obtain sl' where X: "do_loop um uw c e (a + 1) b (n + 1) result
       (sl @ [int64 (delay_of c a + draw e (nat a) mod maxJitter_of c a)]) =
      do_loop um uw c e k b (n + 1 + nat (k - (a + 1))) result sl'"
    using Suc.hyps(1) [OF m' all' le' Suc.prems(3)] by blast
  show ?case
    unfolding step X cnt by blast
qed



lemma has_status_Response: "has_status s t \<Longrightarrow> \<exists>body. t = Response s body"
  by (cases t) simp_all

lemma do_loop_retried_run:
  assumes "\<forall>i. i < k \<longrightarrow> retried c e i" and "int k \<le> maxRetries c"
  shows "\<exists>sl'. do_loop um uw c e 0 b 0 result [] = do_loop um uw c e (int k) b k result sl'"
proof -
  have pre: "\<forall>i. 0 \<le> i \<and> i < int k \<longrightarrow>
             (\<exists>body. meets e (nat i) = Response 429 body) \<and> 0 < maxJitter_of c i
               \<and> ctx_done e (nat i) = None"
  proof (intro allI impI)
    fix i :: int
    assume i: "0 \<le> i \<and> i < int k"
    then have "nat i < k" by linarith
    then have r: "retried c e (nat i)" using assms(1) by blast
    have "int (nat i) = i" using i by simp
    then show "(\<exists>body. meets e (nat i) = Response 429 body) \<and> 0 < maxJitter_of c i
               \<and> ctx_done e (nat i) = None"
      using r by (auto simp add: retried_def dest: has_status_Response)
  qed
  have le: "(0::int) \<le> int k" by simp
  from do_loop_429_run [OF pre le assms(2), of um uw b 0 result "[]"]
  show ?thesis by simp
qed

lemma do_loop_other_error:
  assumes "attempt \<le> maxRetries c"
    and "doOnce um uw (meets e (nat attempt)) result = (Some er, result')"
    and "errors_As is_APIError er = None"
  shows "do_loop um uw c e attempt b n result sl =
     \<lparr>returned = Return (Some er), breaker = b,
      attempts = (if network_call (meets e (nat attempt)) then n + 1 else n),
      dest = result', sleeps = sl\<rparr>"
  using assms
  by (subst do_loop.simps) (auto simp add: Let_def)

lemma do_loop_success:
  assumes "attempt \<le> maxRetries c"
    and "doOnce um uw (meets e (nat attempt)) result = (None, result')"
  shows "do_loop um uw c e attempt b n result sl =
     \<lparr>returned = Return None, breaker = recordSuccess b,
      attempts = (if network_call (meets e (nat attempt)) then n + 1 else n),
      dest = result', sleeps = sl\<rparr>"
  using assms
  by (subst do_loop.simps) (auto simp add: Let_def)

lemmas client_defs = New_def NewWithOptions_def newCircuitBreaker_def const_maxRetries_def
  const_baseDelay_def const_defaultTimeout_def Second_def TrimSuffix_def HasSuffix_def

lemmas delay_defs = maxJitter_of_def delay_of_def shl1_def int64_def quot_def

subsection \<open>Whole seconds of a duration\<close>

lemma rne_bounds:
  assumes "0 < den" "L * den \<le> num" "num \<le> H * den"
  shows "L \<le> rne num den \<and> rne num den \<le> H"
proof -
  let ?q = "num div den" and ?r = "num mod den"
  have qr: "num = ?q * den + ?r" by simp
  have r0: "0 \<le> ?r" and r1: "?r < den" using assms(1) by simp_all
  have Lq: "L \<le> ?q"
    using assms(1,2) by (metis zdiv_mono1 nonzero_mult_div_cancel_right less_irrefl)
  have qH: "?q \<le> H"
  proof (rule ccontr)
    assume "\<not> ?q \<le> H"
    then have "H + 1 \<le> ?q" by simp
    then have A: "(H + 1) * den \<le> ?q * den" using assms(1) by (simp add: mult_right_mono)
    have B: "(H + 1) * den = H * den + den" by (simp add: distrib_right)
    have C: "?q * den + ?r = num" by simp
    from A B C r0 assms(1,3) show False by linarith
  qed
  have up: "rne num den \<le> H"
  proof (cases "?q = H")
    case True
    have C: "H * den + ?r = num" using True by (metis div_mult_mod_eq)
    have "?r \<le> 0" using C assms(3) by linarith
    then have "?r = 0" using r0 by simp
    then show ?thesis using True assms(1) by (simp add: rne_def Let_def)
  next
    case False
    then have "?q + 1 \<le> H" using qH by simp
    moreover have "rne num den \<le> ?q + 1" by (simp add: rne_def Let_def)
    ultimately show ?thesis by simp
  qed
  have "?q \<le> rne num den" by (simp add: rne_def Let_def)
  then show ?thesis using Lq up by simp
qed

lemma exponent_lower:
  assumes "0 < a" "0 < b" "0 \<le> exponent_of a b"
  shows "2 ^ nat (exponent_of a b) * b \<le> a"
proof -
  let ?e0 = "bitlen \<bar>a\<bar> - bitlen b"
  show ?thesis
  proof (cases "if 0 \<le> ?e0 then 2 ^ nat ?e0 * b \<le> \<bar>a\<bar> else b \<le> \<bar>a\<bar> * 2 ^ nat (- ?e0)")
    case True
    then have e: "exponent_of a b = ?e0" by (simp add: exponent_of_def Let_def)
    then have "0 \<le> ?e0" using assms(3) by simp
    then show ?thesis using True e assms(1) by simp
  next
    case False
    then have e: "exponent_of a b = ?e0 - 1" by (simp add: exponent_of_def Let_def)
    then have e1: "1 \<le> ?e0" using assms(3) by simp
    have ba: "2 ^ nat (bitlen a - 1) \<le> a" and bb: "b < 2 ^ nat (bitlen b)"
      using bitlen_bounds [of a] bitlen_bounds [of b] assms(1,2) by simp_all
    have bbn: "0 \<le> bitlen b" by (rule bitlen_nonneg)
    have "nat (?e0 - 1) + nat (bitlen b) = nat (bitlen a - 1)"
      using e1 bbn assms(1) by simp
    then have Y: "(2::int) ^ nat (bitlen a - 1) = 2 ^ nat (?e0 - 1) * 2 ^ nat (bitlen b)"
      by (metis power_add)
    have X: "(2::int) ^ nat (?e0 - 1) * b \<le> 2 ^ nat (?e0 - 1) * 2 ^ nat (bitlen b)"
      using bb by (intro mult_left_mono) simp_all
    have "(2::int) ^ nat (?e0 - 1) * b \<le> a" using X Y ba by linarith
    then show ?thesis using e by simp
  qed
qed

lemma exponent_less:
  assumes "0 < a" "0 < b" "a < b * 2 ^ n"
  shows "exponent_of a b < int n"
proof (rule ccontr)
  assume "\<not> exponent_of a b < int n"
  then have ge: "int n \<le> exponent_of a b" by simp
  then have nn: "0 \<le> exponent_of a b" by simp
  have "n \<le> nat (exponent_of a b)" using ge by simp
  then have "(2::int) ^ n \<le> 2 ^ nat (exponent_of a b)"
    by (intro power_increasing) simp_all
  then have "2 ^ n * b \<le> 2 ^ nat (exponent_of a b) * b"
    using assms(2) by (intro mult_right_mono) simp_all
  also have "\<dots> \<le> a" using assms(1,2) nn by (rule exponent_lower)
  finally show False using assms(3) by (simp add: mult.commute)
qed


lemma first_rounding:
  assumes "0 \<le> nsec" "nsec < Second" "float64_div nsec Second = (m, k)"
  shows "k \<le> 0 \<and> 0 \<le> m \<and> m * 2 ^ 30 \<le> (2 ^ 30 - 1) * 2 ^ nat (- k)"
proof (cases "nsec = 0")
  case True
  then show ?thesis using assms(3) by (simp add: float64_div_def)
next
  case False
  then have pos: "0 < nsec" using assms(1) by simp
  have sp: "0 < Second" by (simp add: Second_def)
  have "nsec < Second * 2 ^ 0" using assms(2) by simp
  then have "exponent_of nsec Second < int 0"
    using pos sp by (intro exponent_less) simp_all
  then have e: "exponent_of nsec Second - 52 \<le> - 53" by simp
  define j where "j = nat (- (exponent_of nsec Second - 52))"
  have j53: "53 \<le> j" using e by (simp add: j_def)
  have fd: "float64_div nsec Second = (rne (nsec * 2 ^ j) Second, exponent_of nsec Second - 52)"
    unfolding j_def using False e by (simp add: float64_div_def Let_def)
  have km: "k = exponent_of nsec Second - 52" and m: "m = rne (nsec * 2 ^ j) Second"
    using assms(3) fd by simp_all
  have jk: "nat (- k) = j" using km by (simp add: j_def)
  have "30 \<le> j" using j53 by simp
  then obtain i where i: "j = 30 + i" using le_iff_add by blast
  have lo: "0 * Second \<le> nsec * 2 ^ j" using pos by simp
  have "nsec * 2 ^ 30 \<le> (2 ^ 30 - 1) * Second"
    using assms(2) by (simp add: Second_def)
  then have "nsec * 2 ^ 30 * 2 ^ i \<le> (2 ^ 30 - 1) * Second * 2 ^ i"
    by (intro mult_right_mono) simp_all
  then have hi: "nsec * 2 ^ j \<le> ((2 ^ 30 - 1) * 2 ^ i) * Second"
    by (simp add: i power_add mult.assoc mult.left_commute)
  from rne_bounds [OF sp lo hi] m have "0 \<le> m" and "m \<le> (2 ^ 30 - 1) * 2 ^ i" by simp_all
  then have "m * 2 ^ 30 \<le> (2 ^ 30 - 1) * 2 ^ i * 2 ^ 30"
    by (intro mult_right_mono) simp_all
  then have "m * 2 ^ 30 \<le> (2 ^ 30 - 1) * 2 ^ j"
    by (simp add: i power_add mult.assoc mult.left_commute mult.commute)
  then show ?thesis using \<open>0 \<le> m\<close> km e jk by simp
qed


lemma second_rounding:
  assumes "0 \<le> sec" "sec + 1 \<le> 2 ^ 23" "0 \<le> m1" "m1 * 2 ^ 30 \<le> (2 ^ 30 - 1) * 2 ^ j"
    and "float64_div (sec * 2 ^ j + m1) (2 ^ j) = (m2, k2)"
  shows "(if 0 \<le> k2 then m2 * 2 ^ nat k2 else quot m2 (2 ^ nat (- k2))) = sec"
proof (cases "sec * 2 ^ j + m1 = 0")
  case True
  have "0 \<le> sec * 2 ^ j" using assms(1) by simp
  then have "sec * 2 ^ j = 0" using True assms(3) by linarith
  then have "sec = 0" by simp
  then show ?thesis using True assms(5) by (simp add: float64_div_def)
next
  case False
  let ?a = "sec * 2 ^ j + m1" and ?b = "(2::int) ^ j"
  have "0 \<le> sec * 2 ^ j" using assms(1) by simp
  then have a0: "0 < ?a" using False assms(3) by linarith
  have b0: "0 < ?b" by simp
  have m1lt: "m1 < 2 ^ j"
    using assms(4) b0 by (simp, linarith)
  have A: "(sec + 1) * ?b \<le> 2 ^ 23 * ?b"
    using assms(2) by (intro mult_right_mono) simp_all
  have B: "(sec + 1) * ?b = sec * ?b + ?b" by (simp add: distrib_right)
  have C: "(2::int) ^ 23 * ?b = ?b * 2 ^ 23" by (rule mult.commute)
  have "?a < ?b * 2 ^ 23" using A B C m1lt by linarith
  then have "exponent_of ?a ?b < int 23" using a0 b0 by (intro exponent_less) simp_all
  then have e: "exponent_of ?a ?b - 52 \<le> - 30" by simp
  define j2 where "j2 = nat (- (exponent_of ?a ?b - 52))"
  have fd: "float64_div ?a ?b = (rne (?a * 2 ^ j2) ?b, exponent_of ?a ?b - 52)"
    unfolding j2_def using False e by (simp add: float64_div_def Let_def)
  have k2: "k2 = exponent_of ?a ?b - 52" and m2: "m2 = rne (?a * 2 ^ j2) ?b"
    using assms(5) fd by simp_all
  have "30 \<le> j2" using e by (simp add: j2_def)
  then obtain i where i: "j2 = 30 + i" using le_iff_add by blast
  have lo: "(sec * 2 ^ j2) * ?b \<le> ?a * 2 ^ j2"
    using assms(3) by (simp add: distrib_right mult.assoc mult.left_commute mult.commute)
  have "m1 * 2 ^ 30 * 2 ^ i \<le> (2 ^ 30 - 1) * 2 ^ j * 2 ^ i"
    using assms(4) by (intro mult_right_mono) simp_all
  then have mi: "m1 * 2 ^ j2 \<le> (2 ^ 30 - 1) * 2 ^ i * 2 ^ j"
    by (simp add: i power_add mult.assoc mult.left_commute mult.commute)
  have "?a * 2 ^ j2 = sec * 2 ^ j2 * 2 ^ j + m1 * 2 ^ j2"
    by (simp add: algebra_simps)
  also have "\<dots> \<le> sec * 2 ^ j2 * 2 ^ j + (2 ^ 30 - 1) * 2 ^ i * 2 ^ j"
    using mi by simp
  also have "\<dots> = (sec * 2 ^ j2 + (2 ^ 30 - 1) * 2 ^ i) * ?b"
    by (simp add: distrib_right)
  finally have hi: "?a * 2 ^ j2 \<le> (sec * 2 ^ j2 + (2 ^ 30 - 1) * 2 ^ i) * ?b" .
  from rne_bounds [OF b0 lo hi] m2
  have l: "sec * 2 ^ j2 \<le> m2" and h: "m2 \<le> sec * 2 ^ j2 + (2 ^ 30 - 1) * 2 ^ i" by simp_all
  have "(2 ^ 30 - 1) * (2::int) ^ i < 2 ^ 30 * 2 ^ i" by simp
  then have "(2 ^ 30 - 1) * (2::int) ^ i < 2 ^ j2" by (simp add: i power_add)
  then have h': "m2 < (sec + 1) * 2 ^ j2" using h by (simp add: distrib_right)
  have "0 \<le> sec * 2 ^ j2" using assms(1) by simp
  then have m2nn: "0 \<le> m2" using l by linarith
  have j2p: "(0::int) < 2 ^ j2" by simp
  have "m2 = 2 ^ j2 * sec + (m2 - 2 ^ j2 * sec)" by simp
  moreover have "0 \<le> m2 - 2 ^ j2 * sec" using l by (simp add: mult.commute)
  moreover have "m2 - 2 ^ j2 * sec < 2 ^ j2" using h' by (simp add: distrib_right mult.commute)
  ultimately have dv: "m2 div 2 ^ j2 = sec" by (rule int_div_pos_eq)
  have "k2 < 0" using k2 e by simp
  moreover have "nat (- k2) = j2" using k2 by (simp add: j2_def)
  moreover have "quot m2 (2 ^ j2) = m2 div 2 ^ j2"
    using m2nn j2p by (cases "m2 = 0") (simp_all add: quot_def)
  ultimately show ?thesis using dv by simp
qed

lemma Seconds_int_exact:
  assumes "0 \<le> d" "d < 2 ^ 23 * Second"
  shows "Seconds_int d = d div Second"
proof -
  have sp: "0 < Second" by (simp add: Second_def)
  let ?sec = "d div Second" and ?nsec = "d mod Second"
  have q: "quot d Second = ?sec"
    using assms(1) sp by (cases "d = 0") (simp_all add: quot_def)
  have n: "d - ?sec * Second = ?nsec"
    by (simp add: minus_div_mult_eq_mod)
  have s0: "0 \<le> ?sec" using assms(1) sp by (simp add: pos_imp_zdiv_nonneg_iff)
  have "?sec < 2 ^ 23"
  proof (rule ccontr)
    assume "\<not> ?sec < 2 ^ 23"
    then have "2 ^ 23 \<le> ?sec" by simp
    then have A: "2 ^ 23 * Second \<le> ?sec * Second" using sp by (intro mult_right_mono) simp_all
    have B: "?sec * Second + ?nsec = d" by simp
    have "0 \<le> ?nsec" using sp by simp
    then show False using A B assms(2) by linarith
  qed
  then have s1: "?sec + 1 \<le> 2 ^ 23" by simp
  have n0: "0 \<le> ?nsec" and n1: "?nsec < Second" using sp by simp_all
  obtain m1 k1 where f1: "float64_div ?nsec Second = (m1, k1)" by (cases "float64_div ?nsec Second")
  from first_rounding [OF n0 n1 f1]
  have k1: "k1 \<le> 0" and m10: "0 \<le> m1" and m11: "m1 * 2 ^ 30 \<le> (2 ^ 30 - 1) * 2 ^ nat (- k1)"
    by simp_all
  obtain m2 k2 where f2: "float64_div (?sec * 2 ^ nat (- k1) + m1) (2 ^ nat (- k1)) = (m2, k2)"
    by (cases "float64_div (?sec * 2 ^ nat (- k1) + m1) (2 ^ nat (- k1))")
  from second_rounding [OF s0 s1 m10 m11 f2]
  have r: "(if 0 \<le> k2 then m2 * 2 ^ nat k2 else quot m2 (2 ^ nat (- k2))) = ?sec" .
  show ?thesis
    by (simp add: Seconds_int_def Let_def q n f1 f2 r)
qed


subsection \<open>The retry policy of a constructed client\<close>

text \<open>
  The options refuse a negative number of retries and a base delay that is not positive,
  so every client that \<open>NewWithOptions\<close> builds allows at least the first request and
  waits at least 1 ns.
\<close>

lemma apply_option_policy:
  "0 \<le> maxRetries c \<and> 0 < baseDelay c
     \<Longrightarrow> 0 \<le> maxRetries (apply_option opt c) \<and> 0 < baseDelay (apply_option opt c)"
  by (cases opt) simp_all

lemma options_policy:
  "0 \<le> maxRetries c \<and> 0 < baseDelay c
     \<Longrightarrow> 0 \<le> maxRetries (foldl (\<lambda>c opt. apply_option opt c) c opts)
         \<and> 0 < baseDelay (foldl (\<lambda>c opt. apply_option opt c) c opts)"
proof (induction opts arbitrary: c)
  case Nil
  then show ?case by simp
next
  case (Cons opt opts)
  have "0 \<le> maxRetries (apply_option opt c) \<and> 0 < baseDelay (apply_option opt c)"
    using Cons.prems by (rule apply_option_policy)
  then show ?case
    using Cons.IH [of "apply_option opt c"] by simp
qed

lemma NewWithOptions_policy:
  "0 \<le> maxRetries (NewWithOptions baseURL apiKey opts)
   \<and> 0 < baseDelay (NewWithOptions baseURL apiKey opts)"
  unfolding NewWithOptions_def Let_def
  by (rule options_policy) (simp add: const_maxRetries_def const_baseDelay_def Second_def)

subsection \<open>Rate limiting on every attempt\<close>

text \<open>
  C1, as amended. Let the breaker let the call through, every request up to number
  \<open>maxRetries\<close> be answered 429, and no backoff be ended by the context. If the base
  delay is at least 2 ns and \<open>baseDelay * 2 ^ maxRetries\<close> is less than \<open>2 ^ 23\<close> seconds
  (some 97 days; within this bound nothing overflows and \<open>Seconds\<close> is exact), then
  \<open>do\<close> sends exactly \<open>maxRetries + 1\<close> requests, returns a \<open>RateLimitError\<close> whose
  \<open>RetryAfter\<close> is \<open>baseDelay * 2 ^ maxRetries\<close> in whole seconds, and leaves the
  breaker as the entry check left it.
\<close>

theorem C1_all_429:
  assumes gate: "isOpen (cb c) now = (False, b)"
    and mr: "0 \<le> maxRetries c"
    and all429: "\<forall>i. i \<le> nat (maxRetries c) \<longrightarrow> has_status 429 (meets e i)"
    and nocancel: "\<forall>i. i < nat (maxRetries c) \<longrightarrow> ctx_done e i = None"
    and d2: "2 \<le> baseDelay c"
    and small: "baseDelay c * 2 ^ nat (maxRetries c) < 2 ^ 23 * Second"
  shows "returned (Client_do um uw c now e result) =
           Return (Some (RateLimitError (baseDelay c * 2 ^ nat (maxRetries c) div Second)))
       \<and> attempts (Client_do um uw c now e result) = nat (maxRetries c) + 1
       \<and> breaker (Client_do um uw c now e result) = b
       \<and> failures (breaker (Client_do um uw c now e result)) = failures b"
proof -
  let ?k = "maxRetries c"
  have fits: "baseDelay c * 2 ^ nat (maxRetries c) \<le> MaxInt64"
    using small by (simp add: Second_def MaxInt64_def)
  have pre: "\<forall>i. i < nat ?k \<longrightarrow> retried c e i"
  proof (intro allI impI)
    fix i assume lt: "i < nat ?k"
    then have le: "i \<le> nat ?k" by simp
    have "baseDelay c * 2 ^ i \<le> baseDelay c * 2 ^ nat ?k"
      using d2 le by (intro mult_pow_mono) simp_all
    then have "baseDelay c * 2 ^ nat (int i) \<le> MaxInt64"
      using fits by simp
    then have "0 < maxJitter_of c (int i)"
      using d2 by (intro maxJitter_positive) simp_all
    then show "retried c e i"
      using all429 nocancel lt le by (simp add: retried_def)
  qed
  have k: "int (nat ?k) = ?k" using mr by simp
  obtain sl' where run: "do_loop um uw c e 0 b 0 result [] =
      do_loop um uw c e ?k b (nat ?k) result sl'"
    using do_loop_retried_run [OF pre, of um uw b result] k by auto
  obtain body where last: "meets e (nat ?k) = Response 429 body"
    using all429 has_status_Response by blast
  have fin: "do_loop um uw c e ?k b (nat ?k) result sl' =
     \<lparr>returned = Return (Some (RateLimitError (Seconds_int (int64 (baseDelay c * shl1 ?k))))),
      breaker = b, attempts = nat ?k + 1, dest = result, sleeps = sl'\<rparr>"
    using last by (intro do_loop_429_exhausted) simp_all
  have "int64 (baseDelay c * shl1 ?k) = baseDelay c * 2 ^ nat ?k"
    using delay_of_exact [of c ?k] d2 mr fits by (simp add: delay_of_def)
  moreover have "0 \<le> baseDelay c * 2 ^ nat ?k" using d2 by simp
  ultimately have ra: "Seconds_int (int64 (baseDelay c * shl1 ?k)) =
      baseDelay c * 2 ^ nat ?k div Second"
    using small by (simp add: Seconds_int_exact)
  show ?thesis
    using gate run fin ra by (simp add: Client_do_def)
qed

text \<open>
  The default client (3 retries, base delay 1 s) against a server that always answers
  429: four requests, then \<open>RateLimitError\<close> with \<open>RetryAfter = 8\<close>.
\<close>

theorem C1_all_429_witness:
  "returned (Client_do no_unmarshal no_wrapper (New ''https://h'' ''k'') 0
       (always (Response 429 ''{}'')) None) = Return (Some (RateLimitError 8))
   \<and> attempts (Client_do no_unmarshal no_wrapper (New ''https://h'' ''k'') 0
       (always (Response 429 ''{}'')) None) = 4
   \<and> breaker (Client_do no_unmarshal no_wrapper (New ''https://h'' ''k'') 0
       (always (Response 429 ''{}'')) None) = newCircuitBreaker"
proof -
  let ?c = "New ''https://h'' ''k''"
  let ?e = "always (Response 429 ''{}'')"
  have g: "isOpen (cb ?c) 0 = (False, newCircuitBreaker)"
    by (simp add: client_defs isOpen_def)
  have mr: "maxRetries ?c = 3" and bd: "baseDelay ?c = 1000000000"
    by (simp_all add: client_defs)
  have h1: "0 \<le> maxRetries ?c" using mr by simp
  have h2: "\<forall>i. i \<le> nat (maxRetries ?c) \<longrightarrow> has_status 429 (meets ?e i)"
    by (simp add: always_def)
  have h3: "\<forall>i. i < nat (maxRetries ?c) \<longrightarrow> ctx_done ?e i = None"
    by (simp add: always_def)
  have h4: "2 \<le> baseDelay ?c" using bd by simp
  have h5: "baseDelay ?c * 2 ^ nat (maxRetries ?c) < 2 ^ 23 * Second"
    by (simp add: mr bd Second_def)
  have v: "baseDelay ?c * 2 ^ nat (maxRetries ?c) div Second = 8"
    by (simp add: mr bd Second_def)
  show ?thesis
    using C1_all_429 [OF g h1 h2 h3 h4 h5, of no_unmarshal no_wrapper None] mr v by simp
qed

text \<open>
  The claim as stated fails: the same default client against the same server, with the
  context cancelled during the first backoff, sends one request (not four) and returns
  the context's error (not a \<open>RateLimitError\<close>).
\<close>

theorem C1_cancelled_counterexample:
  "returned (Client_do no_unmarshal no_wrapper (New ''https://h'' ''k'') 0
      ((always (Response 429 ''{}''))\<lparr>ctx_done := (\<lambda>i. Some Canceled)\<rparr>) None)
     = Return (Some (ContextError Canceled))
   \<and> attempts (Client_do no_unmarshal no_wrapper (New ''https://h'' ''k'') 0
      ((always (Response 429 ''{}''))\<lparr>ctx_done := (\<lambda>i. Some Canceled)\<rparr>) None) = 1
   \<and> maxRetries (New ''https://h'' ''k'') + 1 = 4"
  by (simp add: Client_do_def isOpen_def client_defs always_def
      do_loop_429_cancel [where body = "''{}''"] delay_defs)

subsection \<open>The circuit breaker\<close>

text \<open>
  C2. A new breaker has threshold 5 and cooldown 30 s, and five recorded failures bring
  its counter to 5 with the time of the last one. For a breaker with these settings whose
  counter has reached 5: a \<open>do\<close> called no later than 30 s after the last recorded
  failure returns \<open>CircuitBreakerError\<close>, sends no request and leaves the breaker as it
  was; an \<open>isOpen\<close> check made more than 30 s after the last recorded failure reports
  closed and sets the counter to zero, changing nothing else; a \<open>do\<close> called then is let
  through, and a successful answer leaves the counter at zero. \<open>recordSuccess\<close> sets the
  counter to zero in every state.
\<close>

theorem C2_breaker:
  "maxFailures newCircuitBreaker = 5 \<and> resetTimeout newCircuitBreaker = 30 * Second
   \<and> recordFailure (recordFailure (recordFailure (recordFailure (recordFailure
        newCircuitBreaker t1) t2) t3) t4) t5
      = newCircuitBreaker\<lparr>failures := 5, lastFailure := t5\<rparr>
   \<and> (maxFailures (cb c) = 5 \<and> resetTimeout (cb c) = 30 * Second \<and> 5 \<le> failures (cb c)
      \<and> Since now (lastFailure (cb c)) \<le> 30 * Second
     \<longrightarrow> returned (Client_do um uw c now e result) = Return (Some CircuitBreakerError)
        \<and> attempts (Client_do um uw c now e result) = 0
        \<and> breaker (Client_do um uw c now e result) = cb c)
   \<and> (maxFailures b = 5 \<and> resetTimeout b = 30 * Second \<and> 5 \<le> failures b
      \<and> 30 * Second < Since now (lastFailure b)
     \<longrightarrow> isOpen b now = (False, b\<lparr>failures := 0\<rparr>))
   \<and> (maxFailures (cb c) = 5 \<and> resetTimeout (cb c) = 30 * Second \<and> 5 \<le> failures (cb c)
      \<and> 30 * Second < Since now (lastFailure (cb c)) \<and> 0 \<le> maxRetries c
      \<and> has_status 200 (meets e 0)
     \<longrightarrow> returned (Client_do um uw c now e None) = Return None
        \<and> attempts (Client_do um uw c now e None) = 1
        \<and> failures (breaker (Client_do um uw c now e None)) = 0)
   \<and> failures (recordSuccess b) = 0"
proof (intro conjI impI)
  assume h: "maxFailures (cb c) = 5 \<and> resetTimeout (cb c) = 30 * Second \<and> 5 \<le> failures (cb c)
      \<and> 30 * Second < Since now (lastFailure (cb c)) \<and> 0 \<le> maxRetries c
      \<and> has_status 200 (meets e 0)"
  then obtain body where m: "meets e 0 = Response 200 body"
    using has_status_Response by blast
  have g: "isOpen (cb c) now = (False, reset (cb c))"
    using h by (simp add: isOpen_def)
  have d: "doOnce um uw (meets e (nat 0)) None = (None, None)"
    using m by (simp add: doOnce_def)
  have l: "do_loop um uw c e 0 (reset (cb c)) 0 None [] =
     \<lparr>returned = Return None, breaker = recordSuccess (reset (cb c)),
      attempts = (if network_call (meets e (nat 0)) then 0 + 1 else 0),
      dest = None, sleeps = []\<rparr>"
    using h d by (intro do_loop_success) simp_all
  show "returned (Client_do um uw c now e None) = Return None"
    using g l by (simp add: Client_do_def)
  show "attempts (Client_do um uw c now e None) = 1"
    using g l m by (simp add: Client_do_def)
  show "failures (breaker (Client_do um uw c now e None)) = 0"
    using g l by (simp add: Client_do_def recordSuccess_def reset_def)
qed (simp_all add: Client_do_def isOpen_def recordSuccess_def reset_def recordFailure_def
      newCircuitBreaker_def)

text \<open>
  A client whose breaker recorded five failures, the last at time 0: a \<open>do\<close> at 30 s is
  refused without a request; an \<open>isOpen\<close> at 30 s and 1 ns closes the breaker.
\<close>

theorem C2_breaker_witness:
  "returned (Client_do no_unmarshal no_wrapper
      ((New ''https://h'' ''k'')\<lparr>cb := newCircuitBreaker\<lparr>failures := 5, lastFailure := 0\<rparr>\<rparr>)
      (30 * Second) (always (Response 200 ''{}'')) None) = Return (Some CircuitBreakerError)
   \<and> attempts (Client_do no_unmarshal no_wrapper
      ((New ''https://h'' ''k'')\<lparr>cb := newCircuitBreaker\<lparr>failures := 5, lastFailure := 0\<rparr>\<rparr>)
      (30 * Second) (always (Response 200 ''{}'')) None) = 0
   \<and> isOpen (newCircuitBreaker\<lparr>failures := 5, lastFailure := 0\<rparr>) (30 * Second + 1)
      = (False, newCircuitBreaker\<lparr>failures := 0, lastFailure := 0\<rparr>)
   \<and> returned (Client_do no_unmarshal no_wrapper
      ((New ''https://h'' ''k'')\<lparr>cb := newCircuitBreaker\<lparr>failures := 5, lastFailure := 0\<rparr>\<rparr>)
      (30 * Second + 1) (always (Response 200 ''{}'')) None) = Return None
   \<and> failures (breaker (Client_do no_unmarshal no_wrapper
      ((New ''https://h'' ''k'')\<lparr>cb := newCircuitBreaker\<lparr>failures := 5, lastFailure := 0\<rparr>\<rparr>)
      (30 * Second + 1) (always (Response 200 ''{}'')) None)) = 0"
proof -
  let ?b = "newCircuitBreaker\<lparr>failures := 5, lastFailure := 0\<rparr>"
  let ?c = "(New ''https://h'' ''k'')\<lparr>cb := ?b\<rparr>"
  let ?e = "always (Response 200 ''{}'')"
  have s1: "maxFailures (cb ?c) = 5 \<and> resetTimeout (cb ?c) = 30 * Second \<and> 5 \<le> failures (cb ?c)
      \<and> Since (30 * Second) (lastFailure (cb ?c)) \<le> 30 * Second"
    by (simp add: newCircuitBreaker_def Since_def Second_def MaxInt64_def MinInt64_def)
  have s2: "maxFailures ?b = 5 \<and> resetTimeout ?b = 30 * Second \<and> 5 \<le> failures ?b
      \<and> 30 * Second < Since (30 * Second + 1) (lastFailure ?b)"
    by (simp add: newCircuitBreaker_def Since_def Second_def MaxInt64_def MinInt64_def)
  have s3: "maxFailures (cb ?c) = 5 \<and> resetTimeout (cb ?c) = 30 * Second \<and> 5 \<le> failures (cb ?c)
      \<and> 30 * Second < Since (30 * Second + 1) (lastFailure (cb ?c)) \<and> 0 \<le> maxRetries ?c
      \<and> has_status 200 (meets ?e 0)"
    by (simp add: client_defs always_def Since_def MaxInt64_def MinInt64_def)
  note t1 = C2_breaker [where c = ?c and now = "30 * Second" and um = no_unmarshal
      and uw = no_wrapper and e = ?e and result = None and b = ?b]
  note t2 = C2_breaker [where c = ?c and now = "30 * Second + 1" and um = no_unmarshal
      and uw = no_wrapper and e = ?e and result = None and b = ?b]
  have a: "returned (Client_do no_unmarshal no_wrapper ?c (30 * Second) ?e None)
        = Return (Some CircuitBreakerError)
      \<and> attempts (Client_do no_unmarshal no_wrapper ?c (30 * Second) ?e None) = 0"
    using t1 s1 by blast
  have b: "isOpen ?b (30 * Second + 1) = (False, ?b\<lparr>failures := 0\<rparr>)"
    using t2 s2 by blast
  have c: "returned (Client_do no_unmarshal no_wrapper ?c (30 * Second + 1) ?e None) = Return None
      \<and> failures (breaker (Client_do no_unmarshal no_wrapper ?c (30 * Second + 1) ?e None)) = 0"
    using t2 s3 by blast
  from a b c show ?thesis by simp
qed

subsection \<open>Authentication failures and server errors\<close>

text \<open>
  C3. When the breaker lets the call through and the first request is answered 401 or
  403, \<open>do\<close> sends exactly one request, records one failure on the breaker (the counter
  goes up by one from what the entry check left), and returns an \<open>AuthError\<close> whose
  reason is one fixed string, whatever the response body.
\<close>

theorem C3_auth:
  assumes "isOpen (cb c) now = (False, b)" and "0 \<le> maxRetries c"
    and "meets e 0 = Response status body" and "status = 401 \<or> status = 403"
  shows "returned (Client_do um uw c now e result) =
           Return (Some (AuthError ''invalid API key or insufficient permissions''))
       \<and> attempts (Client_do um uw c now e result) = 1
       \<and> breaker (Client_do um uw c now e result) = recordFailure b (clock e 0)
       \<and> failures (breaker (Client_do um uw c now e result)) = failures b + 1"
  using assms
  by (simp add: Client_do_def do_loop_auth [where body = body] recordFailure_def)

theorem C3_auth_witness:
  "returned (Client_do no_unmarshal no_wrapper (New ''https://h'' ''k'') 0
      (always (Response 401 ''{\"error\":\"token abc expired\"}'')) None)
     = Return (Some (AuthError ''invalid API key or insufficient permissions''))
   \<and> attempts (Client_do no_unmarshal no_wrapper (New ''https://h'' ''k'') 0
      (always (Response 401 ''{\"error\":\"token abc expired\"}'')) None) = 1
   \<and> failures (breaker (Client_do no_unmarshal no_wrapper (New ''https://h'' ''k'') 0
      (always (Response 401 ''{\"error\":\"token abc expired\"}'')) None)) = 1"
proof -
  let ?c = "New ''https://h'' ''k''"
  let ?e = "always (Response 401 ''{\"error\":\"token abc expired\"}'')"
  have g: "isOpen (cb ?c) 0 = (False, newCircuitBreaker)"
    by (simp add: client_defs isOpen_def)
  have h1: "0 \<le> maxRetries ?c"
    by (simp add: client_defs)
  have h2: "meets ?e 0 = Response 401 ''{\"error\":\"token abc expired\"}''"
    by (simp add: always_def)
  have h3: "(401::int) = 401 \<or> (401::int) = 403"
    by simp
  show ?thesis
    using C3_auth [OF g h1 h2 h3, of no_unmarshal no_wrapper None]
    by (simp add: newCircuitBreaker_def recordFailure_def)
qed

text \<open>
  C4. When the breaker lets the call through and the first request is answered with a
  status of 500 or more, \<open>do\<close> sends exactly one request, records one failure on the
  breaker, and returns the \<open>APIError\<close> of \<open>doOnce\<close> itself, with that status code and the
  response body.
\<close>

theorem C4_server_error:
  assumes "isOpen (cb c) now = (False, b)" and "0 \<le> maxRetries c"
    and "meets e 0 = Response status body" and "500 \<le> status"
  shows "returned (Client_do um uw c now e result) = Return (Some (APIError status body))
       \<and> attempts (Client_do um uw c now e result) = 1
       \<and> breaker (Client_do um uw c now e result) = recordFailure b (clock e 0)
       \<and> failures (breaker (Client_do um uw c now e result)) = failures b + 1"
  using assms
  by (simp add: Client_do_def do_loop_server_error [where body = body] recordFailure_def)

theorem C4_server_error_witness:
  "returned (Client_do no_unmarshal no_wrapper (New ''https://h'' ''k'') 0
      (always (Response 500 ''{\"error\": \"internal error\"}'')) None)
     = Return (Some (APIError 500 ''{\"error\": \"internal error\"}''))
   \<and> attempts (Client_do no_unmarshal no_wrapper (New ''https://h'' ''k'') 0
      (always (Response 500 ''{\"error\": \"internal error\"}'')) None) = 1
   \<and> failures (breaker (Client_do no_unmarshal no_wrapper (New ''https://h'' ''k'') 0
      (always (Response 500 ''{\"error\": \"internal error\"}'')) None)) = 1"
proof -
  let ?c = "New ''https://h'' ''k''"
  let ?e = "always (Response 500 ''{\"error\": \"internal error\"}'')"
  have g: "isOpen (cb ?c) 0 = (False, newCircuitBreaker)"
    by (simp add: client_defs isOpen_def)
  have h1: "0 \<le> maxRetries ?c"
    by (simp add: client_defs)
  have h2: "meets ?e 0 = Response 500 ''{\"error\": \"internal error\"}''"
    by (simp add: always_def)
  have h3: "(500::int) \<le> 500"
    by simp
  show ?thesis
    using C4_server_error [OF g h1 h2 h3, of no_unmarshal no_wrapper None]
    by (simp add: newCircuitBreaker_def recordFailure_def)
qed

subsection \<open>Cancellation\<close>

text \<open>
  C9, as amended. Let the breaker let the call through and the first \<open>k\<close> requests be
  answered 429 and retried. If request \<open>k\<close> fails in \<open>c.HTTP.Do\<close> with an error \<open>x\<close>
  whose chain holds the context's error (and no \<open>APIError\<close>), \<open>do\<close> returns \<open>x\<close> wrapped
  as \<open>request failed: ...\<close>: the context's error is found in it by \<open>errors.Is\<close>, but
  it is not the context's error itself. If request \<open>k\<close> is answered 429 and the context
  is done during the backoff that follows, \<open>do\<close> returns the context's error itself. In
  both cases \<open>k + 1\<close> requests were sent.
\<close>

theorem C9_cancellation:
  "(isOpen (cb c) now = (False, b) \<and> int k \<le> maxRetries c \<and> (\<forall>i. i < k \<longrightarrow> retried c e i)
      \<and> meets e k = DoFails x
      \<and> errors_Is x (ContextError ce) \<and> errors_As is_APIError x = None
     \<longrightarrow> returned (Client_do um uw c now e result)
            = Return (Some (Wrapped ''request failed: '' x))
        \<and> errors_Is (Wrapped ''request failed: '' x) (ContextError ce)
        \<and> Wrapped ''request failed: '' x \<noteq> ContextError ce
        \<and> attempts (Client_do um uw c now e result) = k + 1)
   \<and> (isOpen (cb c) now = (False, b) \<and> int k < maxRetries c \<and> (\<forall>i. i < k \<longrightarrow> retried c e i)
      \<and> has_status 429 (meets e k) \<and> 0 < maxJitter_of c (int k) \<and> ctx_done e k = Some ce
     \<longrightarrow> returned (Client_do um uw c now e result) = Return (Some (ContextError ce))
        \<and> attempts (Client_do um uw c now e result) = k + 1)"
proof (intro conjI impI)
  assume h: "isOpen (cb c) now = (False, b) \<and> int k \<le> maxRetries c
      \<and> (\<forall>i. i < k \<longrightarrow> retried c e i) \<and> meets e k = DoFails x
      \<and> errors_Is x (ContextError ce) \<and> errors_As is_APIError x = None"
  obtain sl' where run: "do_loop um uw c e 0 b 0 result [] =
      do_loop um uw c e (int k) b k result sl'"
    using do_loop_retried_run [of k c e um uw b result] h by blast
  have d: "doOnce um uw (meets e (nat (int k))) result
      = (Some (Wrapped ''request failed: '' x), result)"
    using h by (simp add: doOnce_def)
  have a: "errors_As is_APIError (Wrapped ''request failed: '' x) = None"
    using h by simp
  have l: "do_loop um uw c e (int k) b k result sl' =
     \<lparr>returned = Return (Some (Wrapped ''request failed: '' x)), breaker = b,
      attempts = (if network_call (meets e (nat (int k))) then k + 1 else k),
      dest = result, sleeps = sl'\<rparr>"
    using h d a by (intro do_loop_other_error) simp_all
  show "returned (Client_do um uw c now e result)
      = Return (Some (Wrapped ''request failed: '' x))"
    using h run l by (simp add: Client_do_def)
  show "attempts (Client_do um uw c now e result) = k + 1"
    using h run l by (simp add: Client_do_def)
  show "errors_Is (Wrapped ''request failed: '' x) (ContextError ce)"
    using h by simp
  show "Wrapped ''request failed: '' x \<noteq> ContextError ce"
    by simp
next
  assume h: "isOpen (cb c) now = (False, b) \<and> int k < maxRetries c
      \<and> (\<forall>i. i < k \<longrightarrow> retried c e i)
      \<and> has_status 429 (meets e k) \<and> 0 < maxJitter_of c (int k) \<and> ctx_done e k = Some ce"
  have le: "int k \<le> maxRetries c" using h by simp
  obtain sl' where run: "do_loop um uw c e 0 b 0 result [] =
      do_loop um uw c e (int k) b k result sl'"
    using do_loop_retried_run [of k c e um uw b result] h le by blast
  obtain body where m: "meets e k = Response 429 body"
    using h has_status_Response by blast
  have l: "do_loop um uw c e (int k) b k result sl' =
     \<lparr>returned = Return (Some (ContextError ce)), breaker = b, attempts = k + 1,
      dest = result, sleeps = sl'\<rparr>"
    using h m by (intro do_loop_429_cancel [where body = body]) simp_all
  show "returned (Client_do um uw c now e result) = Return (Some (ContextError ce))"
    using h run l by (simp add: Client_do_def)
  show "attempts (Client_do um uw c now e result) = k + 1"
    using h run l by (simp add: Client_do_def)
qed

text \<open>
  The default client: a first request that fails with the \<open>*url.Error\<close> of a cancelled
  context comes back wrapped; a cancellation during the first backoff comes back as it
  is.
\<close>

theorem C9_cancellation_witness:
  "returned (Client_do no_unmarshal no_wrapper (New ''https://h'' ''k'') 0
      (always (DoFails
        (NetWrapped False ''Get \"https://h/api/templates\": '' (ContextError Canceled)))) None)
     = Return (Some (Wrapped ''request failed: ''
        (NetWrapped False ''Get \"https://h/api/templates\": '' (ContextError Canceled))))
   \<and> returned (Client_do no_unmarshal no_wrapper (New ''https://h'' ''k'') 0
      ((always (Response 429 ''{}''))\<lparr>ctx_done := (\<lambda>i. Some DeadlineExceeded)\<rparr>) None)
     = Return (Some (ContextError DeadlineExceeded))"
proof -
  let ?c = "New ''https://h'' ''k''"
  let ?x = "NetWrapped False ''Get \"https://h/api/templates\": '' (ContextError Canceled)"
  let ?e1 = "always (DoFails ?x)"
  let ?e2 = "(always (Response 429 ''{}''))\<lparr>ctx_done := (\<lambda>i. Some DeadlineExceeded)\<rparr>"
  have g: "isOpen (cb ?c) 0 = (False, newCircuitBreaker)"
    by (simp add: client_defs isOpen_def)
  have h1: "isOpen (cb ?c) 0 = (False, newCircuitBreaker) \<and> int 0 \<le> maxRetries ?c
      \<and> (\<forall>i. i < 0 \<longrightarrow> retried ?c ?e1 i) \<and> meets ?e1 0 = DoFails ?x
      \<and> errors_Is ?x (ContextError Canceled)
      \<and> errors_As is_APIError ?x = None"
    using g by (simp add: client_defs always_def)
  have h2: "isOpen (cb ?c) 0 = (False, newCircuitBreaker) \<and> int 0 < maxRetries ?c
      \<and> (\<forall>i. i < 0 \<longrightarrow> retried ?c ?e2 i)
      \<and> has_status 429 (meets ?e2 0) \<and> 0 < maxJitter_of ?c (int 0)
      \<and> ctx_done ?e2 0 = Some DeadlineExceeded"
    using g by (simp add: client_defs always_def delay_defs)
  note t1 = C9_cancellation [where c = ?c and now = 0 and b = newCircuitBreaker and k = 0
      and e = ?e1 and x = ?x and ce = Canceled
      and um = no_unmarshal and uw = no_wrapper and result = None]
  note t2 = C9_cancellation [where c = ?c and now = 0 and b = newCircuitBreaker and k = 0
      and e = ?e2 and ce = DeadlineExceeded
      and um = no_unmarshal and uw = no_wrapper and result = None]
  have a: "returned (Client_do no_unmarshal no_wrapper ?c 0 ?e1 None)
     = Return (Some (Wrapped ''request failed: '' ?x))"
    using t1 h1 by blast
  have b: "returned (Client_do no_unmarshal no_wrapper ?c 0 ?e2 None)
     = Return (Some (ContextError DeadlineExceeded))"
    using t2 h2 by blast
  from a b show ?thesis by simp
qed

text \<open>
  The claim as stated fails: a request that fails in the transport because its context was
  cancelled does not return the context's own error, but another value that wraps it.
  \<open>http.Client.Do\<close> gives the context's error inside a \<open>*url.Error\<close>, and \<open>doOnce\<close>
  wraps that once more; the same holds if the transport gave the context's error bare.
\<close>

theorem C9_wrapped_counterexample:
  "returned (Client_do no_unmarshal no_wrapper (New ''https://h'' ''k'') 0
      (always (DoFails
        (NetWrapped False ''Get \"https://h/api/templates\": '' (ContextError Canceled)))) None)
     = Return (Some (Wrapped ''request failed: ''
        (NetWrapped False ''Get \"https://h/api/templates\": '' (ContextError Canceled))))
   \<and> Wrapped ''request failed: ''
        (NetWrapped False ''Get \"https://h/api/templates\": '' (ContextError Canceled))
       \<noteq> ContextError Canceled
   \<and> returned (Client_do no_unmarshal no_wrapper (New ''https://h'' ''k'') 0
      (always (DoFails (ContextError Canceled))) None)
     = Return (Some (Wrapped ''request failed: '' (ContextError Canceled)))
   \<and> Wrapped ''request failed: '' (ContextError Canceled) \<noteq> ContextError Canceled"
proof -
  have g: "isOpen (cb (New ''https://h'' ''k'')) 0 = (False, newCircuitBreaker)"
    by (simp add: client_defs isOpen_def)
  have r: "returned (Client_do no_unmarshal no_wrapper (New ''https://h'' ''k'') 0
      (always (DoFails x)) None) = Return (Some (Wrapped ''request failed: '' x))"
    if n: "errors_As is_APIError x = None" for x
  proof -
    have d: "doOnce no_unmarshal no_wrapper (meets (always (DoFails x)) (nat 0)) None
        = (Some (Wrapped ''request failed: '' x), None)"
      by (simp add: doOnce_def always_def)
    have l: "do_loop no_unmarshal no_wrapper (New ''https://h'' ''k'')
        (always (DoFails x)) 0 newCircuitBreaker 0 None [] =
       \<lparr>returned = Return (Some (Wrapped ''request failed: '' x)),
        breaker = newCircuitBreaker,
        attempts = (if network_call (meets (always (DoFails x)) (nat 0)) then 0 + 1 else 0),
        dest = None, sleeps = []\<rparr>"
      using d n by (intro do_loop_other_error) (simp_all add: client_defs)
    show ?thesis
      using g l by (simp add: Client_do_def)
  qed
  have a: "errors_As is_APIError
      (NetWrapped False ''Get \"https://h/api/templates\": '' (ContextError Canceled)) = None"
    by simp
  have b: "errors_As is_APIError (ContextError Canceled) = None"
    by simp
  show ?thesis
    using r [OF a] r [OF b] by simp
qed

subsection \<open>The jitter bound\<close>

text \<open>
  C10, as amended. For a base delay of at least 2 ns and a retry number for which
  \<open>baseDelay * 2 ^ attempt\<close> fits an \<open>int64\<close>, the bound passed to \<open>rand.Int64N\<close> is that
  product halved, and it is positive. For a base delay of 1 ns the bound of the first
  retry is 0, and a \<open>do\<close> whose first request is answered 429, with at least one retry
  allowed, panics after that one request instead of returning an error.
\<close>

theorem C10_jitter_bound:
  "(2 \<le> baseDelay c \<and> 0 \<le> attempt \<and> baseDelay c * 2 ^ nat attempt \<le> MaxInt64
     \<longrightarrow> 0 < maxJitter_of c attempt
        \<and> maxJitter_of c attempt = baseDelay c * 2 ^ nat attempt div 2)
   \<and> (baseDelay c = 1 \<longrightarrow> maxJitter_of c 0 = 0)
   \<and> (baseDelay c = 1 \<and> isOpen (cb c) now = (False, b) \<and> 0 < maxRetries c
        \<and> has_status 429 (meets e 0)
     \<longrightarrow> returned (Client_do um uw c now e result) = Panic ''invalid argument to Int64N''
        \<and> attempts (Client_do um uw c now e result) = 1)"
proof (intro conjI impI)
  assume h: "2 \<le> baseDelay c \<and> 0 \<le> attempt \<and> baseDelay c * 2 ^ nat attempt \<le> MaxInt64"
  then show "0 < maxJitter_of c attempt"
    by (intro maxJitter_positive) simp_all
  have "delay_of c attempt = baseDelay c * 2 ^ nat attempt"
    using h by (intro delay_of_exact) simp_all
  moreover have "0 \<le> baseDelay c * 2 ^ nat attempt" using h by simp
  ultimately show "maxJitter_of c attempt = baseDelay c * 2 ^ nat attempt div 2"
    by (simp add: maxJitter_of_def quot_nonneg)
next
  assume "baseDelay c = 1"
  then show "maxJitter_of c 0 = 0"
    by (simp add: delay_defs)
next
  assume h: "baseDelay c = 1 \<and> isOpen (cb c) now = (False, b) \<and> 0 < maxRetries c
        \<and> has_status 429 (meets e 0)"
  then have j: "maxJitter_of c 0 \<le> 0"
    by (simp add: delay_defs)
  obtain body where m: "meets e 0 = Response 429 body"
    using h has_status_Response by blast
  have l: "do_loop um uw c e 0 b 0 result [] =
     \<lparr>returned = Panic ''invalid argument to Int64N'', breaker = b, attempts = 0 + 1,
      dest = result, sleeps = []\<rparr>"
    using h j m by (intro do_loop_429_panic [where body = body]) simp_all
  show "returned (Client_do um uw c now e result) = Panic ''invalid argument to Int64N''"
    using h l by (simp add: Client_do_def)
  show "attempts (Client_do um uw c now e result) = 1"
    using h l by (simp add: Client_do_def)
qed

text \<open>
  The default client's bound before the third retry is 2 s; a client made with
  \<open>WithRetryBaseDelay(1)\<close> panics on its first 429.
\<close>

theorem C10_jitter_bound_witness:
  "maxJitter_of (New ''https://h'' ''k'') 2 = 2 * Second
   \<and> maxJitter_of (NewWithOptions ''https://h'' ''k'' [WithRetryBaseDelay 1]) 0 = 0
   \<and> returned (Client_do no_unmarshal no_wrapper
        (NewWithOptions ''https://h'' ''k'' [WithRetryBaseDelay 1]) 0
        (always (Response 429 ''{}'')) None) = Panic ''invalid argument to Int64N''"
proof -
  let ?c = "New ''https://h'' ''k''"
  let ?c1 = "NewWithOptions ''https://h'' ''k'' [WithRetryBaseDelay 1]"
  let ?e = "always (Response 429 ''{}'')"
  have h1: "2 \<le> baseDelay ?c \<and> (0::int) \<le> 2 \<and> baseDelay ?c * 2 ^ nat 2 \<le> MaxInt64"
    by (simp add: client_defs MaxInt64_def)
  have h2: "baseDelay ?c1 = 1"
    by (simp add: client_defs)
  have h3: "baseDelay ?c1 = 1 \<and> isOpen (cb ?c1) 0 = (False, newCircuitBreaker)
      \<and> 0 < maxRetries ?c1 \<and> has_status 429 (meets ?e 0)"
    by (simp add: client_defs isOpen_def always_def)
  note t1 = C10_jitter_bound [where c = ?c and attempt = 2]
  note t2 = C10_jitter_bound [where c = ?c1 and now = 0 and b = newCircuitBreaker
      and e = ?e and um = no_unmarshal and uw = no_wrapper and result = None]
  have a: "maxJitter_of ?c 2 = baseDelay ?c * 2 ^ nat 2 div 2"
    using t1 h1 by blast
  have b: "maxJitter_of ?c1 0 = 0"
    using t2 h2 by blast
  have c: "returned (Client_do no_unmarshal no_wrapper ?c1 0 ?e None)
      = Panic ''invalid argument to Int64N''"
    using t2 h3 by blast
  have v: "baseDelay ?c * 2 ^ nat 2 div 2 = 2 * Second"
    by (simp add: client_defs)
  from a b c v show ?thesis by simp
qed

text \<open>
  The claim as stated fails: a base delay of at least 2 ns does not keep the bound
  positive. With the largest duration as base delay, \<open>baseDelay * 2\<close> wraps around to
  \<open>-2\<close> and the bound of the second retry is \<open>-1\<close>; with the default base delay of 1 s
  the bound of retry 34 is negative. With the first of these clients, and the default
  three retries, the second 429 panics.
\<close>

theorem C10_overflow_counterexample:
  "2 \<le> baseDelay (NewWithOptions ''https://h'' ''k'' [WithRetryBaseDelay MaxInt64])
   \<and> maxJitter_of (NewWithOptions ''https://h'' ''k'' [WithRetryBaseDelay MaxInt64]) 1 = - 1
   \<and> maxJitter_of (New ''https://h'' ''k'') 34 = - 633437444854775808
   \<and> returned (Client_do no_unmarshal no_wrapper
        (NewWithOptions ''https://h'' ''k'' [WithRetryBaseDelay MaxInt64]) 0
        (always (Response 429 ''{}'')) None) = Panic ''invalid argument to Int64N''
   \<and> attempts (Client_do no_unmarshal no_wrapper
        (NewWithOptions ''https://h'' ''k'' [WithRetryBaseDelay MaxInt64]) 0
        (always (Response 429 ''{}'')) None) = 2"
proof -
  let ?c = "NewWithOptions ''https://h'' ''k'' [WithRetryBaseDelay MaxInt64]"
  let ?e = "always (Response 429 ''{}'')"
  have bd: "baseDelay ?c = 9223372036854775807" and mr: "maxRetries ?c = 3"
    and cbn: "cb ?c = newCircuitBreaker"
    by (simp_all add: client_defs MaxInt64_def)
  have j0: "maxJitter_of ?c 0 = 4611686018427387903"
    by (simp add: delay_defs bd)
  have j1: "maxJitter_of ?c 1 = - 1"
    by (simp add: delay_defs bd)
  have j34: "maxJitter_of (New ''https://h'' ''k'') 34 = - 633437444854775808"
    by (simp add: delay_defs client_defs)
  have s0: "do_loop no_unmarshal no_wrapper ?c ?e 0 newCircuitBreaker 0 None [] =
      do_loop no_unmarshal no_wrapper ?c ?e (0 + 1) newCircuitBreaker (0 + 1) None
        ([] @ [int64 (delay_of ?c 0 + draw ?e (nat 0) mod maxJitter_of ?c 0)])"
    by (rule do_loop_429_retry [where body = "''{}''"]) (simp_all add: mr j0 always_def)
  have s1: "do_loop no_unmarshal no_wrapper ?c ?e (0 + 1) newCircuitBreaker (0 + 1) None
        ([] @ [int64 (delay_of ?c 0 + draw ?e (nat 0) mod maxJitter_of ?c 0)]) =
     \<lparr>returned = Panic ''invalid argument to Int64N'', breaker = newCircuitBreaker,
      attempts = 0 + 1 + 1, dest = None,
      sleeps = [] @ [int64 (delay_of ?c 0 + draw ?e (nat 0) mod maxJitter_of ?c 0)]\<rparr>"
    by (rule do_loop_429_panic [where body = "''{}''"]) (simp_all add: mr j1 always_def)
  have g: "isOpen (cb ?c) 0 = (False, newCircuitBreaker)"
    by (simp add: cbn) (simp add: newCircuitBreaker_def isOpen_def)
  have r: "Client_do no_unmarshal no_wrapper ?c 0 ?e None =
     \<lparr>returned = Panic ''invalid argument to Int64N'', breaker = newCircuitBreaker,
      attempts = 0 + 1 + 1, dest = None,
      sleeps = [] @ [int64 (delay_of ?c 0 + draw ?e (nat 0) mod maxJitter_of ?c 0)]\<rparr>"
    using g s0 s1 by (simp add: Client_do_def)
  show ?thesis
    using bd j1 j34 r by simp
qed

subsection \<open>Exit codes\<close>

lemma root_not_Wrapped: "root err \<noteq> Wrapped p e"
  by (induction err) simp_all

lemma root_not_NetWrapped: "root err \<noteq> NetWrapped t p e"
  by (induction err) simp_all

lemma Is_NotConfigured_root: "errors_Is err ErrNotConfigured = (root err = ErrNotConfigured)"
  by (induction err) auto

lemma Is_Deadline_root:
  "errors_Is err (ContextError DeadlineExceeded) = (root err = ContextError DeadlineExceeded)"
  by (induction err) auto

lemma IsAuthError_root: "IsAuthError err = is_AuthError (root err)"
  unfolding IsAuthError_def by (induction err) simp_all

lemma IsRateLimitError_root: "IsRateLimitError err = is_RateLimitError (root err)"
  unfolding IsRateLimitError_def by (induction err) simp_all

lemma IsValidationError_root: "IsValidationError err = is_ValidationError (root err)"
  unfolding IsValidationError_def by (induction err) simp_all

lemma IsCircuitBreakerError_root:
  "IsCircuitBreakerError err = is_CircuitBreakerError (root err)"
  unfolding IsCircuitBreakerError_def by (induction err) simp_all

lemma net_Error_times_out:
  "(case errors_As is_net_Error err of Some ne \<Rightarrow> net_Timeout ne | None \<Rightarrow> False)
     = times_out err"
proof (induction err)
  case (ContextError ce)
  then show ?case by (cases ce) simp_all
qed simp_all

lemma classifyError_root:
  "classifyError err =
     (if root err = ErrNotConfigured then ''not_configured''
      else if is_AuthError (root err) then ''auth''
      else if is_RateLimitError (root err) then ''rate_limit''
      else if is_ValidationError (root err) then ''validation''
      else if is_CircuitBreakerError (root err) then ''circuit_breaker''
      else if root err = ContextError DeadlineExceeded then ''timeout''
      else if times_out err then ''timeout'' else ''unknown'')"
proof -
  have n: "(case errors_As is_net_Error err of
              Some ne \<Rightarrow> if net_Timeout ne then ''timeout'' else ''unknown''
            | None \<Rightarrow> ''unknown'')
           = (if times_out err then ''timeout'' else ''unknown'')"
    using net_Error_times_out [of err] by (cases "errors_As is_net_Error err") auto
  show ?thesis
    unfolding classifyError_def n Is_NotConfigured_root Is_Deadline_root IsAuthError_root
      IsRateLimitError_root IsValidationError_root IsCircuitBreakerError_root
    by (rule refl)
qed

lemma ExitCode_root:
  "ExitCode err =
     (case code_of_kind (root err) of
        Some code \<Rightarrow> code
      | None \<Rightarrow> if times_out err then 7 else 1)"
proof (cases "root err")
  case (ContextError ce)
  then show ?thesis
    by (cases ce) (simp_all add: ExitCode_def classifyError_root)
next
  case (NetWrapped t p e)
  then show ?thesis by (simp add: root_not_NetWrapped)
next
  case (Wrapped p e)
  then show ?thesis by (simp add: root_not_Wrapped)
qed (simp_all add: ExitCode_def classifyError_root)

lemma As_RateLimit_root:
  "root err = RateLimitError n \<Longrightarrow> errors_As is_RateLimitError err = Some (RateLimitError n)"
  by (induction err) simp_all

text \<open>
  C8. For every error, \<open>ExitCode\<close> is decided by the kind of the innermost error of its
  chain: 2 for a \<open>ValidationError\<close>, 3 for an \<open>AuthError\<close>, 4 for a \<open>RateLimitError\<close>, 5
  for \<open>ErrNotConfigured\<close>, 6 for a \<open>CircuitBreakerError\<close> and 7 for
  \<open>context.DeadlineExceeded\<close>; for every other error it is 7 when the error times out
  (the outermost \<open>net.Error\<close> of its chain has \<open>Timeout()\<close> true) and 1 otherwise. When
  the output mode is JSON or NDJSON and the error is a \<open>RateLimitError\<close>, the payload that
  \<open>WriteError\<close> writes holds the message, the type \<open>rate_limit\<close>, the exit code 4 and,
  under \<open>retry_after_seconds\<close>, the error's \<open>RetryAfter\<close>.
\<close>

theorem C8_exit_codes:
  "ExitCode err =
     (case code_of_kind (root err) of
        Some code \<Rightarrow> code
      | None \<Rightarrow> if times_out err then 7 else 1)
   \<and> (DetectOutputMode args envOutput = (mode, None) \<and> (mode = JSON \<or> mode = NDJSON)
        \<and> root err = RateLimitError n
      \<longrightarrow> WriteError args envOutput err =
            Payload [(''error'', PString (Error err)), (''type'', PString ''rate_limit''),
                     (''exit_code'', PInt 4), (''retry_after_seconds'', PInt n)])"
proof (intro conjI impI)
  show "ExitCode err =
     (case code_of_kind (root err) of
        Some code \<Rightarrow> code
      | None \<Rightarrow> if times_out err then 7 else 1)"
    by (rule ExitCode_root)
next
  assume h: "DetectOutputMode args envOutput = (mode, None) \<and> (mode = JSON \<or> mode = NDJSON)
        \<and> root err = RateLimitError n"
  have k: "classifyError err = ''rate_limit''"
    using h by (simp add: classifyError_root)
  have x: "ExitCode err = 4"
    using h by (simp add: ExitCode_root)
  have a: "errors_As is_RateLimitError err = Some (RateLimitError n)"
    using h by (simp add: As_RateLimit_root)
  show "WriteError args envOutput err =
            Payload [(''error'', PString (Error err)), (''type'', PString ''rate_limit''),
                     (''exit_code'', PInt 4), (''retry_after_seconds'', PInt n)]"
    using h k x a by (auto simp add: WriteError_def)
qed

text \<open>
  The exit codes of the kinds; of a request that failed on a timeout of the connection and
  of one that failed on the deadline of its context, as \<open>do\<close> returns them; of a cancelled
  context and of an \<open>APIError\<close>; and the payload for a \<open>RateLimitError\<close> of 8 seconds
  under \<open>--output json\<close>.
\<close>

theorem C8_exit_codes_witness:
  "ExitCode (ValidationError ''url'' ''invalid URL format'') = 2
   \<and> ExitCode (AuthError ''bad'') = 3
   \<and> ExitCode (RateLimitError 1) = 4
   \<and> ExitCode ErrNotConfigured = 5
   \<and> ExitCode CircuitBreakerError = 6
   \<and> ExitCode (ContextError DeadlineExceeded) = 7
   \<and> ExitCode (Wrapped ''request failed: ''
        (NetWrapped True ''Get https://h/api/templates: ''
          (NetError True ''dial tcp 10.0.0.1:443: i/o timeout''))) = 7
   \<and> ExitCode (Wrapped ''request failed: ''
        (NetWrapped True ''Get https://h/api/templates: ''
          (ContextError DeadlineExceeded))) = 7
   \<and> ExitCode (Wrapped ''request failed: ''
        (NetWrapped False ''Get https://h/api/templates: ''
          (ContextError Canceled))) = 1
   \<and> ExitCode (ContextError Canceled) = 1
   \<and> ExitCode (APIError 404 ''{}'') = 1
   \<and> WriteError [''templates'', ''list'', ''--output'', ''json''] [] (RateLimitError 8) =
        Payload [(''error'', PString ''rate limit exceeded, retry after 8 seconds''),
                 (''type'', PString ''rate_limit''), (''exit_code'', PInt 4),
                 (''retry_after_seconds'', PInt 8)]"
proof -
  have m: "DetectOutputMode [''templates'', ''list'', ''--output'', ''json''] [] = (JSON, None)
      \<and> (JSON = JSON \<or> JSON = NDJSON) \<and> root (RateLimitError 8) = RateLimitError 8"
    by (simp add: Parse_def HasPrefix_def)
  note w = C8_exit_codes [where err = "RateLimitError 8" and mode = JSON and n = 8
      and args = "[''templates'', ''list'', ''--output'', ''json'']" and envOutput = "[]"]
  have p: "WriteError [''templates'', ''list'', ''--output'', ''json''] [] (RateLimitError 8) =
        Payload [(''error'', PString (Error (RateLimitError 8))), (''type'', PString ''rate_limit''),
                 (''exit_code'', PInt 4), (''retry_after_seconds'', PInt 8)]"
    using w m by blast
  have e: "Error (RateLimitError 8) = ''rate limit exceeded, retry after 8 seconds''"
    by (simp add: itoa_def digits_of.simps)
  have c: "ExitCode (ValidationError ''url'' ''invalid URL format'') = 2"
    "ExitCode (AuthError ''bad'') = 3"
    "ExitCode (RateLimitError 1) = 4"
    "ExitCode ErrNotConfigured = 5"
    "ExitCode CircuitBreakerError = 6"
    "ExitCode (ContextError DeadlineExceeded) = 7"
    "ExitCode (Wrapped ''request failed: ''
        (NetWrapped True ''Get https://h/api/templates: ''
          (NetError True ''dial tcp 10.0.0.1:443: i/o timeout''))) = 7"
    "ExitCode (Wrapped ''request failed: ''
        (NetWrapped True ''Get https://h/api/templates: ''
          (ContextError DeadlineExceeded))) = 7"
    "ExitCode (Wrapped ''request failed: ''
        (NetWrapped False ''Get https://h/api/templates: ''
          (ContextError Canceled))) = 1"
    "ExitCode (ContextError Canceled) = 1"
    "ExitCode (APIError 404 ''{}'') = 1"
    using C8_exit_codes [THEN conjunct1] by simp_all
  from c p e show ?thesis by simp
qed

subsection \<open>Sanitized error messages\<close>























subsection \<open>Decoding a response\<close>

text \<open>
  C5, as amended. For a response with a status below 400, a destination and a body that is
  not empty: when the body decodes into the destination directly, that decoding is the
  result, and an envelope is not unwrapped; when decoding the envelope directly fails and
  leaves the destination as it was, the wrapper gives the payload under \<open>data\<close>, and the
  payload decodes into the destination, the result is the same as for a response whose
  body is the payload itself.
\<close>

theorem C5_envelope:
  "(status < 400 \<and> body \<noteq> [] \<and> um body d = (None, direct)
     \<longrightarrow> doOnce um uw (Response status body) (Some d) = (None, Some direct))
   \<and> (status < 400 \<and> body \<noteq> [] \<and> payload \<noteq> [] \<and> um body d = (Some err, d)
        \<and> uw body = (None, Some payload) \<and> um payload d = (None, inner)
     \<longrightarrow> doOnce um uw (Response status body) (Some d) = (None, Some inner)
        \<and> doOnce um uw (Response status body) (Some d)
            = doOnce um uw (Response status payload) (Some d))"
  by (simp add: doOnce_def)

text \<open>
  A list endpoint: the envelope \<open>{"data":["a","b"]}\<close> decodes into a \<open>[]string\<close> as
  \<open>["a","b"]\<close> does. A struct: the body \<open>{"status":"ok"}\<close> decodes directly.
\<close>

theorem C5_envelope_witness:
  "doOnce unmarshal_strings unmarshal_wrapper_examples
      (Response 200 ''{\"data\":[\"a\",\"b\"]}'') (Some []) = (None, Some [''a'', ''b''])
   \<and> doOnce unmarshal_strings unmarshal_wrapper_examples
      (Response 200 ''{\"data\":[\"a\",\"b\"]}'') (Some [])
     = doOnce unmarshal_strings unmarshal_wrapper_examples
      (Response 200 ''[\"a\",\"b\"]'') (Some [])
   \<and> doOnce unmarshal_StatusReply unmarshal_wrapper_examples
      (Response 200 ''{\"status\":\"ok\"}'') (Some \<lparr>Status = []\<rparr>)
     = (None, Some \<lparr>Status = ''ok''\<rparr>)"
proof -
  note t1 = C5_envelope [where um = unmarshal_strings and uw = unmarshal_wrapper_examples
      and status = 200 and body = "''{\"data\":[\"a\",\"b\"]}''" and d = "[]"
      and payload = "''[\"a\",\"b\"]''" and inner = "[''a'', ''b'']"
      and err = "OtherError ''json: cannot unmarshal object into Go value of type []string''"]
  note t2 = C5_envelope [where um = unmarshal_StatusReply and uw = unmarshal_wrapper_examples
      and status = 200 and body = "''{\"status\":\"ok\"}''" and d = "\<lparr>Status = []\<rparr>"
      and direct = "\<lparr>Status = ''ok''\<rparr>"]
  have h1: "(200::int) < 400 \<and> ''{\"data\":[\"a\",\"b\"]}'' \<noteq> [] \<and> ''[\"a\",\"b\"]'' \<noteq> []
      \<and> unmarshal_strings ''{\"data\":[\"a\",\"b\"]}'' [] =
          (Some (OtherError ''json: cannot unmarshal object into Go value of type []string''), [])
      \<and> unmarshal_wrapper_examples ''{\"data\":[\"a\",\"b\"]}'' = (None, Some ''[\"a\",\"b\"]'')
      \<and> unmarshal_strings ''[\"a\",\"b\"]'' [] = (None, [''a'', ''b''])"
    by (simp add: unmarshal_strings_def unmarshal_wrapper_examples_def)
  have h2: "(200::int) < 400 \<and> ''{\"status\":\"ok\"}'' \<noteq> []
      \<and> unmarshal_StatusReply ''{\"status\":\"ok\"}'' \<lparr>Status = []\<rparr>
          = (None, \<lparr>Status = ''ok''\<rparr>)"
    by (simp add: unmarshal_StatusReply_def)
  have a: "doOnce unmarshal_strings unmarshal_wrapper_examples
      (Response 200 ''{\"data\":[\"a\",\"b\"]}'') (Some []) = (None, Some [''a'', ''b''])
   \<and> doOnce unmarshal_strings unmarshal_wrapper_examples
      (Response 200 ''{\"data\":[\"a\",\"b\"]}'') (Some [])
     = doOnce unmarshal_strings unmarshal_wrapper_examples
      (Response 200 ''[\"a\",\"b\"]'') (Some [])"
    using t1 h1 by blast
  have b: "doOnce unmarshal_StatusReply unmarshal_wrapper_examples
      (Response 200 ''{\"status\":\"ok\"}'') (Some \<lparr>Status = []\<rparr>)
     = (None, Some \<lparr>Status = ''ok''\<rparr>)"
    using t2 h2 by blast
  from a b show ?thesis by blast
qed

text \<open>
  The claim as stated fails for a struct destination: the envelope
  \<open>{"data":{"status":"ok"}}\<close> decodes directly, with no error and no field set, so
  \<open>doOnce\<close> never looks under \<open>data\<close>; the body \<open>{"status":"ok"}\<close> sets the field.
\<close>

theorem C5_struct_counterexample:
  "doOnce unmarshal_StatusReply unmarshal_wrapper_examples
      (Response 200 ''{\"data\":{\"status\":\"ok\"}}'') (Some \<lparr>Status = []\<rparr>)
     = (None, Some \<lparr>Status = []\<rparr>)
   \<and> doOnce unmarshal_StatusReply unmarshal_wrapper_examples
      (Response 200 ''{\"status\":\"ok\"}'') (Some \<lparr>Status = []\<rparr>)
     = (None, Some \<lparr>Status = ''ok''\<rparr>)
   \<and> doOnce unmarshal_StatusReply unmarshal_wrapper_examples
      (Response 200 ''{\"data\":{\"status\":\"ok\"}}'') (Some \<lparr>Status = []\<rparr>)
     \<noteq> doOnce unmarshal_StatusReply unmarshal_wrapper_examples
      (Response 200 ''{\"status\":\"ok\"}'') (Some \<lparr>Status = []\<rparr>)"
  by (simp add: doOnce_def unmarshal_StatusReply_def)

end
